theory Spec2Isabelle
  imports Complex_Main
begin

section \<open>Conversation state and context budget of the chat helper\<close>

text \<open>
  A shallow embedding of \<^verbatim>\<open>src/bot/openai_helper.py\<close>: the model families and their
  limits, the token accountant, the history store, the context budgeter, the rendering of
  history into the structured wire shape and the two tool-call loops.

  Collaborators that are not part of the file are arguments of the functions that use
  them: the tokenizer (\<open>enc\<close>, the length of \<^verbatim>\<open>encoding.encode(value)\<close>), the image
  decoder (\<open>dims\<close>, the pixel size of the image behind a URL), the upstream model, the
  plugin manager and \<^verbatim>\<open>is_direct_result\<close>. The tokenizer returns \<open>None\<close> for a text it
  refuses (\<^verbatim>\<open>encode\<close> raises \<^verbatim>\<open>ValueError\<close> on a text that spells a special token);
  the upstream model and the plugin manager return an error when they raise.
\<close>

subsection \<open>Errors\<close>

text \<open>
  Every \<^verbatim>\<open>raise\<close> of the source is a value. The first four are all Python's
  \<^verbatim>\<open>NotImplementedError\<close>, told apart by the place that raises them.
\<close>

datatype error =
    UnsupportedModel          \<comment> \<open>\<^verbatim>\<open>__count_tokens\<close>: model not in \<^verbatim>\<open>GPT_ALL_MODELS\<close>\<close>
  | UnsupportedVisionModel    \<comment> \<open>\<^verbatim>\<open>__count_tokens_vision\<close>: vision model not supported\<close>
  | UnsupportedDetailLevel    \<comment> \<open>\<^verbatim>\<open>__count_tokens_vision\<close>: unknown detail\<close>
  | MaxTokensNotImplemented   \<comment> \<open>\<^verbatim>\<open>__max_model_tokens\<close>: no branch for the model\<close>
  | KeyError                  \<comment> \<open>a dictionary read of a missing chat id\<close>
  | IndexError                \<comment> \<open>a list read out of range\<close>
  | UpstreamError             \<comment> \<open>the upstream model call raised\<close>
  | PluginError               \<comment> \<open>the plugin call raised\<close>
  | ValueError                \<comment> \<open>the tokenizer refused a text\<close>
  | TypeError                 \<comment> \<open>\<^verbatim>\<open>async for\<close> over a response that is no stream\<close>
  | AttributeError            \<comment> \<open>\<^verbatim>\<open>.choices\<close> of a response that is a stream\<close>

subsection \<open>Model families\<close>

definition GPT_3_MODELS :: "string list" where
  "GPT_3_MODELS = [''gpt-3.5-turbo'', ''gpt-3.5-turbo-0301'', ''gpt-3.5-turbo-0613'']"

definition GPT_3_16K_MODELS :: "string list" where
  "GPT_3_16K_MODELS =
     [''gpt-3.5-turbo-16k'', ''gpt-3.5-turbo-16k-0613'', ''gpt-3.5-turbo-1106'',
      ''gpt-3.5-turbo-0125'']"

definition GPT_4_MODELS :: "string list" where
  "GPT_4_MODELS = [''gpt-4'', ''gpt-4-0314'', ''gpt-4-0613'', ''gpt-4-turbo-preview'']"

definition GPT_4_32K_MODELS :: "string list" where
  "GPT_4_32K_MODELS = [''gpt-4-32k'', ''gpt-4-32k-0314'', ''gpt-4-32k-0613'']"

definition GPT_4_VISION_MODELS :: "string list" where
  "GPT_4_VISION_MODELS = [''gpt-4o'']"

definition GPT_4_128K_MODELS :: "string list" where
  "GPT_4_128K_MODELS =
     [''gpt-4-1106-preview'', ''gpt-4-0125-preview'', ''gpt-4-turbo-preview'',
      ''gpt-4-turbo'', ''gpt-4-turbo-2024-04-09'']"

definition GPT_4O_MODELS :: "string list" where
  "GPT_4O_MODELS = [''gpt-4o'', ''gpt-4o-mini'', ''chatgpt-4o-latest'']"

definition GPT_4_1_MODELS :: "string list" where
  "GPT_4_1_MODELS = [''gpt-4.1'', ''gpt-4.1-mini'', ''gpt-4.1-nano'']"

definition O_MODELS :: "string list" where
  "O_MODELS = [''o1'', ''o1-mini'', ''o1-preview'']"

definition GPT_ALL_MODELS :: "string list" where
  "GPT_ALL_MODELS =
     GPT_3_MODELS @ GPT_3_16K_MODELS @ GPT_4_MODELS @ GPT_4_32K_MODELS @
     GPT_4_VISION_MODELS @ GPT_4_128K_MODELS @ GPT_4O_MODELS @ GPT_4_1_MODELS @ O_MODELS"

text \<open>
  \<^verbatim>\<open>default_max_tokens\<close>: an \<^verbatim>\<open>if/elif\<close> chain with no final \<^verbatim>\<open>else\<close>; a model
  of no family falls off its end and the function returns Python's \<^verbatim>\<open>None\<close>.
\<close>

definition default_max_tokens :: "string \<Rightarrow> int option" where
  "default_max_tokens model =
     (let base = 1200 in
      if model \<in> set GPT_3_MODELS then Some base
      else if model \<in> set GPT_4_MODELS then Some (base * 2)
      else if model \<in> set GPT_3_16K_MODELS then
        (if model = ''gpt-3.5-turbo-1106'' then Some 4096 else Some (base * 4))
      else if model \<in> set GPT_4_32K_MODELS then Some (base * 8)
      else if model \<in> set GPT_4_VISION_MODELS then Some 4096
      else if model \<in> set GPT_4_128K_MODELS then Some 4096
      else if model \<in> set GPT_4O_MODELS then Some 4096
      else if model \<in> set GPT_4_1_MODELS then Some 30000
      else if model \<in> set O_MODELS then Some 4096
      else None)"

definition are_functions_available :: "string \<Rightarrow> bool" where
  "are_functions_available model =
     (if model \<in> set [''gpt-3.5-turbo-0301'', ''gpt-4-0314'', ''gpt-4-32k-0314'',
                       ''gpt-3.5-turbo-0613'', ''gpt-3.5-turbo-16k-0613'']
      then False
      else if model \<in> set O_MODELS then False
      else True)"

subsection \<open>Configuration and messages\<close>

text \<open>The entries of \<^verbatim>\<open>self.config\<close> that the modelled functions read.\<close>

record config =
  model :: string
  vision_model :: string
  vision_detail :: string
  assistant_prompt :: string
  max_tokens :: int
  max_history_size :: int
  max_conversation_age_minutes :: int
  functions_max_consecutive_calls :: int
  enable_functions :: bool
  use_responses_api :: bool

text \<open>
  A content block of a multimodal turn:
  \<^verbatim>\<open>{'type': 'text', 'text': t}\<close> or
  \<^verbatim>\<open>{'type': 'image_url', 'image_url': {'url': u, 'detail': d}}\<close>. These are the two
  kinds of block the helper puts into a history (\<^verbatim>\<open>interpret_image\<close>).
\<close>

datatype block = TextBlock string | ImageBlock string string

text \<open>The content of a message: a plain string or a list of blocks.\<close>

datatype content = Str string | Parts "block list"

text \<open>
  A message of the history: \<^verbatim>\<open>{"role": r, "content": c}\<close>, and for a function result
  \<^verbatim>\<open>{"role": "function", "name": n, "content": c}\<close> (\<open>name = None\<close>: no such key).
\<close>

record message =
  role :: string
  name :: "string option"
  content :: content

type_synonym chat_id = int

text \<open>
  The three dictionaries of the helper. Time stamps are integers (microseconds), the
  resolution of \<^verbatim>\<open>datetime\<close>.
\<close>

record helper =
  conversations :: "chat_id \<rightharpoonup> message list"
  conversations_vision :: "chat_id \<rightharpoonup> bool"
  last_updated :: "chat_id \<rightharpoonup> int"

subsection \<open>Context window of the model\<close>

definition max_model_tokens :: "config \<Rightarrow> error + int" where
  "max_model_tokens cfg =
     (let base = 4096 in
      if model cfg \<in> set GPT_3_MODELS then Inr base
      else if model cfg \<in> set GPT_3_16K_MODELS then Inr (base * 4)
      else if model cfg \<in> set GPT_4_MODELS then Inr (base * 2)
      else if model cfg \<in> set GPT_4_32K_MODELS then Inr (base * 8)
      else if model cfg \<in> set GPT_4_VISION_MODELS then Inr (base * 31)
      else if model cfg \<in> set GPT_4_128K_MODELS then Inr (base * 31)
      else if model cfg \<in> set GPT_4O_MODELS then Inr (base * 31)
      else if model cfg \<in> set GPT_4_1_MODELS then Inr (base * 64)
      else if model cfg \<in> set O_MODELS then
        (if model cfg = ''o1'' then Inr 100000
         else if model cfg = ''o1-preview'' then Inr 32768
         else Inr 65536)
      else Inl MaxTokensNotImplemented)"

subsection \<open>Token accountant\<close>

text \<open>
  \<^verbatim>\<open>__count_tokens_vision\<close>, on the pixel size of the opened image. The guard on the
  configured vision model comes first. The detail level is the configured one.
  Python's \<^verbatim>\<open>w / 768\<close> is a float division; it is modelled by the exact division of
  real numbers, and \<^verbatim>\<open>int(w / f)\<close> (truncation of a non-negative float) by \<open>floor\<close>.
\<close>

definition count_tokens_vision :: "config \<Rightarrow> nat \<times> nat \<Rightarrow> error + nat" where
  "count_tokens_vision cfg size0 =
     (if vision_model cfg \<notin> set GPT_4_VISION_MODELS then Inl UnsupportedVisionModel
      else
        let (w, h) = (if fst size0 > snd size0 then (snd size0, fst size0) else size0);
            base_tokens = 85;
            detail = vision_detail cfg
        in if detail = ''low'' then Inr base_tokens
           else if detail = ''high'' \<or> detail = ''auto'' then
             (let f = max (real w / 768) (real h / 2048);
                  (w, h) = (if f > 1
                            then (nat \<lfloor>real w / f\<rfloor>, nat \<lfloor>real h / f\<rfloor>)
                            else (w, h));
                  (tw, th) = ((w + 511) div 512, (h + 511) div 512);
                  tiles = tw * th
              in Inr (base_tokens + tiles * 170))
           else Inl UnsupportedDetailLevel)"

text \<open>\<^verbatim>\<open>len(encoding.encode(value))\<close>: the length, or the tokenizer's \<^verbatim>\<open>ValueError\<close>.\<close>

definition encoded_length :: "(string \<Rightarrow> nat option) \<Rightarrow> string \<Rightarrow> error + nat" where
  "encoded_length enc s = (case enc s of None \<Rightarrow> Inl ValueError | Some k \<Rightarrow> Inr k)"

text \<open>
  The inner loop of \<^verbatim>\<open>__count_tokens\<close> over the blocks of a content list, with the
  running total \<open>n\<close>; it stops at the first block whose cost raises.
\<close>

fun count_blocks ::
  "config \<Rightarrow> (string \<Rightarrow> nat option) \<Rightarrow> (string \<Rightarrow> nat \<times> nat) \<Rightarrow> block list \<Rightarrow> nat
     \<Rightarrow> error + nat"
where
  "count_blocks cfg enc dims [] n = Inr n"
| "count_blocks cfg enc dims (ImageBlock url d # bs) n =
     (case count_tokens_vision cfg (dims url) of
        Inl e \<Rightarrow> Inl e
      | Inr k \<Rightarrow> count_blocks cfg enc dims bs (n + k))"
| "count_blocks cfg enc dims (TextBlock t # bs) n =
     (case encoded_length enc t of
        Inl e \<Rightarrow> Inl e
      | Inr k \<Rightarrow> count_blocks cfg enc dims bs (n + k))"

text \<open>
  One round of the outer loop: 3 for the message, then every key of the dictionary in
  its order (\<^verbatim>\<open>role\<close>, \<^verbatim>\<open>name\<close> when present, \<^verbatim>\<open>content\<close>): the encoded length of the
  value, one more for a name, and for the content its string length or its blocks.
\<close>

definition count_message ::
  "config \<Rightarrow> (string \<Rightarrow> nat option) \<Rightarrow> (string \<Rightarrow> nat \<times> nat) \<Rightarrow> message \<Rightarrow> nat
     \<Rightarrow> error + nat"
where
  "count_message cfg enc dims m n =
     (let tokens_per_message = 3;
          tokens_per_name = 1;
          n1 = n + tokens_per_message
      in case encoded_length enc (role m) of
           Inl e \<Rightarrow> Inl e
         | Inr r \<Rightarrow>
             (case (case name m of
                      None \<Rightarrow> Inr (n1 + r)
                    | Some fn \<Rightarrow>
                        (case encoded_length enc fn of
                           Inl e \<Rightarrow> Inl e
                         | Inr k \<Rightarrow> Inr (n1 + r + k + tokens_per_name))) of
                Inl e \<Rightarrow> Inl e
              | Inr n3 \<Rightarrow>
                  (case content m of
                     Str s \<Rightarrow>
                       (case encoded_length enc s of
                          Inl e \<Rightarrow> Inl e
                        | Inr k \<Rightarrow> Inr (n3 + k))
                   | Parts bs \<Rightarrow> count_blocks cfg enc dims bs n3)))"

fun count_messages ::
  "config \<Rightarrow> (string \<Rightarrow> nat option) \<Rightarrow> (string \<Rightarrow> nat \<times> nat) \<Rightarrow> message list \<Rightarrow> nat \<Rightarrow> error + nat"
where
  "count_messages cfg enc dims [] n = Inr n"
| "count_messages cfg enc dims (m # ms) n =
     (case count_message cfg enc dims m n of
        Inl e \<Rightarrow> Inl e
      | Inr n' \<Rightarrow> count_messages cfg enc dims ms n')"

definition count_tokens ::
  "config \<Rightarrow> (string \<Rightarrow> nat option) \<Rightarrow> (string \<Rightarrow> nat \<times> nat) \<Rightarrow> message list \<Rightarrow> error + nat"
where
  "count_tokens cfg enc dims messages =
     (if model cfg \<in> set GPT_ALL_MODELS then
        (case count_messages cfg enc dims messages 0 of
           Inl e \<Rightarrow> Inl e
         | Inr num_tokens \<Rightarrow> Inr (num_tokens + 3))
      else Inl UnsupportedModel)"

subsection \<open>History store\<close>

text \<open>
  \<^verbatim>\<open>reset_chat_history(chat_id, content='')\<close>: the empty string stands for "no
  override"; a content list never equals it.
\<close>

definition priming_message :: "config \<Rightarrow> content \<Rightarrow> message" where
  "priming_message cfg c =
     \<lparr> role = (if model cfg \<in> set O_MODELS then ''assistant'' else ''system''),
       name = None,
       content = (if c = Str '''' then Str (assistant_prompt cfg) else c) \<rparr>"

definition reset_chat_history :: "config \<Rightarrow> helper \<Rightarrow> chat_id \<Rightarrow> content \<Rightarrow> helper" where
  "reset_chat_history cfg st cid c =
     st \<lparr> conversations := (conversations st)(cid \<mapsto> [priming_message cfg c]),
          conversations_vision := (conversations_vision st)(cid \<mapsto> False) \<rparr>"

text \<open>\<^verbatim>\<open>self.conversations[chat_id].append(...)\<close>: a missing chat id is a \<^verbatim>\<open>KeyError\<close>.\<close>

definition add_to_history :: "helper \<Rightarrow> chat_id \<Rightarrow> string \<Rightarrow> content \<Rightarrow> error + helper" where
  "add_to_history st cid r c =
     (case conversations st cid of
        None \<Rightarrow> Inl KeyError
      | Some h \<Rightarrow>
          Inr (st \<lparr> conversations :=
                 (conversations st)(cid \<mapsto> h @ [\<lparr> role = r, name = None, content = c \<rparr>]) \<rparr>))"

definition add_function_call_to_history ::
  "helper \<Rightarrow> chat_id \<Rightarrow> string \<Rightarrow> string \<Rightarrow> error + helper"
where
  "add_function_call_to_history st cid function_name c =
     (case conversations st cid of
        None \<Rightarrow> Inl KeyError
      | Some h \<Rightarrow>
          Inr (st \<lparr> conversations :=
                 (conversations st)(cid \<mapsto>
                    h @ [\<lparr> role = ''function'', name = Some function_name,
                            content = Str c \<rparr>]) \<rparr>))"

definition max_age_reached :: "config \<Rightarrow> helper \<Rightarrow> int \<Rightarrow> chat_id \<Rightarrow> bool" where
  "max_age_reached cfg st now cid =
     (case last_updated st cid of
        None \<Rightarrow> False
      | Some t \<Rightarrow> t < now - max_conversation_age_minutes cfg * 60000000)"

text \<open>
  \<^verbatim>\<open>get_conversation_stats\<close>: the new state (the reset is kept even when the count
  raises) and the pair, or the error.
\<close>

definition get_conversation_stats ::
  "config \<Rightarrow> (string \<Rightarrow> nat option) \<Rightarrow> (string \<Rightarrow> nat \<times> nat) \<Rightarrow> helper \<Rightarrow> chat_id
     \<Rightarrow> helper \<times> (error + nat \<times> nat)"
where
  "get_conversation_stats cfg enc dims st cid =
     (let st' = (if cid \<notin> dom (conversations st)
                 then reset_chat_history cfg st cid (Str '''') else st)
      in case conversations st' cid of
           None \<Rightarrow> (st', Inl KeyError)
         | Some h \<Rightarrow>
             (case count_tokens cfg enc dims h of
                Inl e \<Rightarrow> (st', Inl e)
              | Inr t \<Rightarrow> (st', Inr (length h, t))))"

subsection \<open>Context budgeter\<close>

text \<open>Python's slice \<^verbatim>\<open>xs[i:]\<close>: a negative start counts from the end, clamped at 0.\<close>

definition py_slice_from :: "int \<Rightarrow> 'a list \<Rightarrow> 'a list" where
  "py_slice_from i xs =
     (let n = int (length xs);
          start = (if i < 0 then max 0 (n + i) else i)
      in drop (nat start) xs)"

text \<open>
  The \<^verbatim>\<open>try\<close> block of the budgeter in \<^verbatim>\<open>__common_get_chat_response\<close>: the summary
  of all but the last message (\<open>summarise\<close> is the upstream call of \<^verbatim>\<open>__summarise\<close>,
  \<open>Inl\<close> when it raises), the reset to the old first message's content, the summary as
  an assistant turn, and the query again as a user turn. \<open>h\<close> is the history of
  \<open>cid\<close> in \<open>st\<close>.
\<close>

definition summarise_history ::
  "config \<Rightarrow> (message list \<Rightarrow> error + string) \<Rightarrow> helper \<Rightarrow> chat_id \<Rightarrow> message list
     \<Rightarrow> string \<Rightarrow> error + helper"
where
  "summarise_history cfg summarise st cid h query =
     (case summarise (butlast h) of
        Inl e \<Rightarrow> Inl e
      | Inr summary \<Rightarrow>
          (case h of
             [] \<Rightarrow> Inl IndexError
           | m0 # _ \<Rightarrow>
               (case add_to_history (reset_chat_history cfg st cid (content m0)) cid
                       ''assistant'' (Str summary) of
                  Inl e \<Rightarrow> Inl e
                | Inr st2 \<Rightarrow> add_to_history st2 cid ''user'' (Str query))))"

text \<open>
  The budget check (after the user turn has been appended): any exception of the
  \<^verbatim>\<open>try\<close> block leads to the \<^verbatim>\<open>except\<close> branch, which keeps
  \<^verbatim>\<open>self.conversations[chat_id][-max_history_size:]\<close>.
\<close>

definition enforce_budget ::
  "config \<Rightarrow> (string \<Rightarrow> nat option) \<Rightarrow> (string \<Rightarrow> nat \<times> nat) \<Rightarrow> (message list \<Rightarrow> error + string)
     \<Rightarrow> helper \<Rightarrow> chat_id \<Rightarrow> string \<Rightarrow> error + helper"
where
  "enforce_budget cfg enc dims summarise st cid query =
     (case conversations st cid of
        None \<Rightarrow> Inl KeyError
      | Some h \<Rightarrow>
          (case count_tokens cfg enc dims h of
             Inl e \<Rightarrow> Inl e
           | Inr token_count \<Rightarrow>
               (case max_model_tokens cfg of
                  Inl e \<Rightarrow> Inl e
                | Inr limit \<Rightarrow>
                    (let exceeded_max_tokens = int token_count + max_tokens cfg > limit;
                         exceeded_max_history_size = int (length h) > max_history_size cfg
                     in if exceeded_max_tokens \<or> exceeded_max_history_size then
                          (case summarise_history cfg summarise st cid h query of
                             Inr st' \<Rightarrow> Inr st'
                           | Inl _ \<Rightarrow>
                               Inr (st \<lparr> conversations := (conversations st)
                                      (cid \<mapsto> py_slice_from (- max_history_size cfg) h) \<rparr>))
                        else Inr st))))"

text \<open>
  The first part of \<^verbatim>\<open>__common_get_chat_response\<close>, up to the upstream call: reset
  when the chat is new or too old, touch the time stamp, append the user turn, enforce
  the budget. An error is the cause of the exception the source raises in the end (its
  \<^verbatim>\<open>except\<close> clauses wrap the cause in a generic exception with a localized text).
\<close>

definition prepare_history ::
  "config \<Rightarrow> (string \<Rightarrow> nat option) \<Rightarrow> (string \<Rightarrow> nat \<times> nat) \<Rightarrow> (message list \<Rightarrow> error + string)
     \<Rightarrow> int \<Rightarrow> helper \<Rightarrow> chat_id \<Rightarrow> string \<Rightarrow> error + helper"
where
  "prepare_history cfg enc dims summarise now st cid query =
     (let st1 = (if cid \<notin> dom (conversations st) \<or> max_age_reached cfg st now cid
                 then reset_chat_history cfg st cid (Str '''') else st);
          st2 = st1 \<lparr> last_updated := (last_updated st1)(cid \<mapsto> now) \<rparr>
      in case add_to_history st2 cid ''user'' (Str query) of
           Inl e \<Rightarrow> Inl e
         | Inr st3 \<Rightarrow> enforce_budget cfg enc dims summarise st3 cid query)"

subsection \<open>Structured (Responses) wire shape\<close>

text \<open>
  A block of the structured shape: \<^verbatim>\<open>{'type': t, 'text': s}\<close>, or
  \<^verbatim>\<open>{'type': t, 'image_url': {'url': u, 'detail': d}}\<close>.
\<close>

datatype responses_block = TextPart string string | ImagePart string "string \<times> string"

record responses_message =
  rrole :: string
  rcontent :: "responses_block list"

definition block_type :: "string \<Rightarrow> string" where
  "block_type r = (if r \<in> set [''user'', ''system'', ''developer''] then ''input_text''
                   else ''output_text'')"

fun convert_part :: "string \<Rightarrow> block \<Rightarrow> responses_block" where
  "convert_part r (TextBlock t) = TextPart (block_type r) t"
| "convert_part r (ImageBlock url d) = ImagePart ''input_image'' (url, d)"

definition to_responses_message :: "string \<Rightarrow> content \<Rightarrow> responses_message option" where
  "to_responses_message r c =
     (if r = ''function'' then None
      else Some \<lparr> rrole = r,
                  rcontent = (case c of
                                Str s \<Rightarrow> [TextPart (block_type r) s]
                              | Parts ps \<Rightarrow> map (convert_part r) ps) \<rparr>)"

text \<open>
  The history loop of the non-streaming request (\<^verbatim>\<open>__common_get_chat_response\<close>):
  assistant turns are skipped before the conversion.
\<close>

fun responses_input :: "message list \<Rightarrow> responses_message list" where
  "responses_input [] = []"
| "responses_input (m # ms) =
     (if role m = ''assistant'' then responses_input ms
      else (case to_responses_message (role m) (content m) of
              None \<Rightarrow> responses_input ms
            | Some converted \<Rightarrow> converted # responses_input ms))"

text \<open>The history loop of the streaming request (\<^verbatim>\<open>get_chat_response_stream\<close>).\<close>

fun responses_stream_input :: "message list \<Rightarrow> responses_message list" where
  "responses_stream_input [] = []"
| "responses_stream_input (m # ms) =
     (case to_responses_message (role m) (content m) of
        None \<Rightarrow> responses_stream_input ms
      | Some converted \<Rightarrow> converted # responses_stream_input ms)"

subsection \<open>Tool-call resolver, legacy shape\<close>

text \<open>
  A choice of a chat completion: its text and, when the model asks for a function, the
  name and the argument string (each empty when the field is missing or empty).
\<close>

record choice =
  message_content :: string
  function_call :: "(string \<times> string) option"

record completion =
  choices :: "choice list"
  total_tokens :: int

text \<open>
  A chunk of a streamed completion. Its first choice may carry a piece of a function
  call in its delta (a piece of the name and a piece of the arguments, each empty when
  missing; \<open>None\<close> when the delta is missing or has no function call) and a finish
  reason.
\<close>

record chunk_choice =
  delta_function_call :: "(string \<times> string) option"
  finish_reason :: "string option"

record chunk =
  chunk_choices :: "chunk_choice list"

text \<open>
  What the upstream returns: a completion, or with \<^verbatim>\<open>stream=True\<close> the chunks still to
  be read.
\<close>

datatype upstream_response = Completion completion | Stream "chunk list"

text \<open>
  What a request leaves behind apart from its result: the helper's dictionaries, the
  plugin calls made (name and arguments, in order) and the \<^verbatim>\<open>function_call\<close> argument
  of every resubmission to the model.
\<close>

record world =
  helper_state :: helper
  invoked :: "(string \<times> string) list"
  resubmitted :: "string list"

text \<open>What \<^verbatim>\<open>__handle_function_call\<close> returns first: a model response or a plugin's result.\<close>

datatype resolved = ModelResponse upstream_response | PluginResult string

text \<open>
  The first part of \<^verbatim>\<open>__handle_function_call\<close> either returns the response as it is
  (\<open>Plain\<close>) or goes on to the plugin call with a function name and arguments (\<open>Call\<close>).
\<close>

datatype scan = Call string string | Plain upstream_response

text \<open>
  \<^verbatim>\<open>stream=False\<close>: the first choice of the completion decides.
\<close>

definition scan_completion :: "completion \<Rightarrow> scan" where
  "scan_completion response =
     (case choices response of
        [] \<Rightarrow> Plain (Completion response)
      | first_choice # _ \<Rightarrow>
          (case function_call first_choice of
             None \<Rightarrow> Plain (Completion response)
           | Some (function_name, arguments) \<Rightarrow> Call function_name arguments))"

text \<open>
  \<^verbatim>\<open>stream=True\<close>: the \<^verbatim>\<open>async for\<close> loop over the chunks, with the name and the
  arguments gathered so far. A piece of a function call is added and the loop goes on; the
  finish reason \<^verbatim>\<open>function_call\<close> breaks the loop; any other chunk, or a chunk without
  choices, returns the stream, of which the chunks read so far are gone. When the
  stream ends without a break, control falls through to the plugin call as well.
\<close>

fun scan_stream :: "chunk list \<Rightarrow> string \<Rightarrow> string \<Rightarrow> scan" where
  "scan_stream [] function_name arguments = Call function_name arguments"
| "scan_stream (item # items) function_name arguments =
     (case chunk_choices item of
        [] \<Rightarrow> Plain (Stream items)
      | first_choice # _ \<Rightarrow>
          (case delta_function_call first_choice of
             Some (name_piece, arguments_piece) \<Rightarrow>
               scan_stream items (function_name @ name_piece) (arguments @ arguments_piece)
           | None \<Rightarrow>
               (if finish_reason first_choice = Some ''function_call''
                then Call function_name arguments
                else Plain (Stream items))))"

text \<open>
  The branch on the \<^verbatim>\<open>stream\<close> flag. A response of the other kind makes the branch
  raise: a completion cannot be iterated (\<^verbatim>\<open>TypeError\<close>), a stream has no choices
  (\<^verbatim>\<open>AttributeError\<close>).
\<close>

definition requested_call :: "bool \<Rightarrow> upstream_response \<Rightarrow> error + scan" where
  "requested_call stream response =
     (if stream then
        (case response of
           Stream items \<Rightarrow> Inr (scan_stream items [] [])
         | Completion c \<Rightarrow> Inl TypeError)
      else
        (case response of
           Completion c \<Rightarrow> Inr (scan_completion c)
         | Stream items \<Rightarrow> Inl AttributeError))"

text \<open>
  \<^verbatim>\<open>json.dumps({'result': 'Done, the content has been sent' 'to the user.'})\<close>: the two
  adjacent literals are joined without a space.
\<close>

definition direct_result_note :: string where
  "direct_result_note =
     ''{'' @ [CHR 0x22] @ ''result'' @ [CHR 0x22] @ '': '' @ [CHR 0x22] @
     ''Done, the content has been sentto the user.'' @ [CHR 0x22] @ ''}''"

definition function_call_mode :: "config \<Rightarrow> nat \<Rightarrow> string" where
  "function_call_mode cfg ntimes =
     (if int ntimes < functions_max_consecutive_calls cfg then ''auto'' else ''none'')"

text \<open>
  \<^verbatim>\<open>__handle_function_call(chat_id, response, stream, times, plugins_used)\<close>. \<open>create\<close> is
  the upstream \<^verbatim>\<open>chat.completions.create\<close> as a function of the messages, the
  \<^verbatim>\<open>function_call\<close> argument and the \<^verbatim>\<open>stream\<close> flag, \<open>call_function\<close> the plugin
  manager, \<open>is_direct_result\<close> the imported predicate on a plugin's result. The recursion
  of the source has no bound of its own: it ends when a response asks for no function, so
  the model is a partial function and \<open>None\<close> stands for a chain that never ends.
\<close>

partial_function (option) handle_function_call ::
  "config \<Rightarrow> (message list \<Rightarrow> string \<Rightarrow> bool \<Rightarrow> error + upstream_response)
     \<Rightarrow> (string \<Rightarrow> string \<Rightarrow> error + string) \<Rightarrow> (string \<Rightarrow> bool) \<Rightarrow> chat_id
     \<Rightarrow> upstream_response \<Rightarrow> bool \<Rightarrow> nat \<Rightarrow> string list \<Rightarrow> world
     \<Rightarrow> (world \<times> (error + resolved \<times> string list)) option"
where
  "handle_function_call cfg create call_function is_direct_result cid response stream ntimes
       plugins_used w =
     (case requested_call stream response of
        Inl e \<Rightarrow> Some (w, Inl e)
      | Inr (Plain returned) \<Rightarrow> Some (w, Inr (ModelResponse returned, plugins_used))
      | Inr (Call function_name arguments) \<Rightarrow>
          (case call_function function_name arguments of
             Inl e \<Rightarrow>
               Some (w \<lparr> invoked := invoked w @ [(function_name, arguments)] \<rparr>, Inl e)
           | Inr function_response \<Rightarrow>
               (if is_direct_result function_response then
                  (case add_function_call_to_history (helper_state w) cid function_name
                          direct_result_note of
                     Inl e \<Rightarrow>
                       Some (w \<lparr> invoked := invoked w @ [(function_name, arguments)] \<rparr>,
                             Inl e)
                   | Inr st \<Rightarrow>
                       Some (w \<lparr> helper_state := st,
                                 invoked := invoked w @ [(function_name, arguments)] \<rparr>,
                             Inr (PluginResult function_response,
                                  if function_name \<in> set plugins_used then plugins_used
                                  else plugins_used @ [function_name])))
                else
                  (case add_function_call_to_history (helper_state w) cid function_name
                          function_response of
                     Inl e \<Rightarrow>
                       Some (w \<lparr> invoked := invoked w @ [(function_name, arguments)] \<rparr>,
                             Inl e)
                   | Inr st \<Rightarrow>
                       (case conversations st cid of
                          None \<Rightarrow>
                            Some (w \<lparr> helper_state := st,
                                      invoked := invoked w @ [(function_name, arguments)] \<rparr>,
                                  Inl KeyError)
                        | Some h \<Rightarrow>
                            (case create h (function_call_mode cfg ntimes) stream of
                               Inl e \<Rightarrow>
                                 Some (w \<lparr> helper_state := st,
                                           invoked := invoked w @ [(function_name, arguments)],
                                           resubmitted := resubmitted w @
                                             [function_call_mode cfg ntimes] \<rparr>,
                                       Inl e)
                             | Inr response' \<Rightarrow>
                                 handle_function_call cfg create call_function
                                   is_direct_result cid response' stream (ntimes + 1)
                                   (if function_name \<in> set plugins_used then plugins_used
                                    else plugins_used @ [function_name])
                                   (w \<lparr> helper_state := st,
                                        invoked := invoked w @ [(function_name, arguments)],
                                        resubmitted := resubmitted w @
                                          [function_call_mode cfg ntimes] \<rparr>)))))))"

subsection \<open>Tool-call resolver, structured shape\<close>

text \<open>
  A tool call of a response that requires action: its id, its type and, when present,
  the function's name and arguments (\<open>None\<close> for missing or empty arguments).
\<close>

record tool_call =
  tool_id :: string
  tool_type :: string
  tool_function :: "(string \<times> string option) option"

text \<open>
  A response of the structured shape: \<open>submit_tool_outputs\<close> is
  \<^verbatim>\<open>resp.required_action.submit_tool_outputs.tool_calls\<close>, \<open>None\<close> when
  \<^verbatim>\<open>required_action\<close> or \<^verbatim>\<open>submit_tool_outputs\<close> is missing.
\<close>

record response =
  response_id :: string
  status :: string
  submit_tool_outputs :: "tool_call list option"
  output_text :: string

text \<open>
  The \<^verbatim>\<open>for\<close> loop over the tool calls of one response: each function tool is called,
  its output and its name collected; a call that raises ends the loop with the error.
\<close>

fun run_tools ::
  "(string \<Rightarrow> string \<Rightarrow> error + string) \<Rightarrow> tool_call list \<Rightarrow> (string \<times> string) list \<Rightarrow> world
     \<Rightarrow> world \<times> (error + (string \<times> string) list)"
where
  "run_tools call_function [] tool_outputs w = (w, Inr tool_outputs)"
| "run_tools call_function (tool # tools) tool_outputs w =
     (case (if tool_type tool = ''function'' then tool_function tool else None) of
        None \<Rightarrow> run_tools call_function tools tool_outputs w
      | Some (fn_name, args) \<Rightarrow>
          (let fn_args = (case args of None \<Rightarrow> ''{}'' | Some a \<Rightarrow> if a = [] then ''{}'' else a)
           in case call_function fn_name fn_args of
                Inl e \<Rightarrow> (w \<lparr> invoked := invoked w @ [(fn_name, fn_args)] \<rparr>, Inl e)
              | Inr result \<Rightarrow>
                  run_tools call_function tools (tool_outputs @ [(tool_id tool, result)])
                    (w \<lparr> invoked := invoked w @ [(fn_name, fn_args)] \<rparr>)))"

text \<open>
  The \<^verbatim>\<open>while\<close> loop of the non-streaming structured request. \<open>submit\<close> is the upstream
  \<^verbatim>\<open>responses.submit_tool_outputs\<close>; when it raises, the request fails. A plugin that
  raises breaks the loop and the last response is kept. \<open>max_calls\<close> is the configured
  \<^verbatim>\<open>functions_max_consecutive_calls\<close> (10 when the key is missing), \<open>calls\<close> starts at 0.
  The loop has no test for a direct result.
\<close>

function responses_tool_loop ::
  "int \<Rightarrow> (string \<Rightarrow> (string \<times> string) list \<Rightarrow> error + response)
     \<Rightarrow> (string \<Rightarrow> string \<Rightarrow> error + string) \<Rightarrow> response \<Rightarrow> int \<Rightarrow> world
     \<Rightarrow> world \<times> (error + response)"
where
  "responses_tool_loop max_calls submit call_function resp calls w =
     (if status resp = ''requires_action'' \<and> submit_tool_outputs resp \<noteq> None
         \<and> calls < max_calls
      then
        (case submit_tool_outputs resp of
           None \<Rightarrow> (w, Inr resp)
         | Some tool_calls \<Rightarrow>
             (case run_tools call_function tool_calls [] w of
                (w1, Inl e) \<Rightarrow> (w1, Inr resp)
              | (w1, Inr tool_outputs) \<Rightarrow>
                  (case submit (response_id resp) tool_outputs of
                     Inl e \<Rightarrow>
                       (w1 \<lparr> resubmitted := resubmitted w1 @ [''tool_outputs''] \<rparr>, Inl e)
                   | Inr resp' \<Rightarrow>
                       responses_tool_loop max_calls submit call_function resp' (calls + 1)
                         (w1 \<lparr> resubmitted := resubmitted w1 @ [''tool_outputs''] \<rparr>))))
      else (w, Inr resp))"
  by pat_completeness auto
termination
  by (relation "measure (\<lambda>(max_calls, submit, call_function, resp, calls, w).
                   nat (max_calls - calls))") auto

subsection \<open>Closed formulas the code is compared with\<close>

text \<open>
  The cost of a content value when the cost of the image behind each URL is \<open>vcost\<close>:
  text by its encoded length, an image by \<open>vcost\<close>, a block list by the sum.
\<close>

fun block_cost :: "(string \<Rightarrow> nat) \<Rightarrow> (string \<Rightarrow> nat) \<Rightarrow> block \<Rightarrow> nat" where
  "block_cost enc vcost (TextBlock t) = enc t"
| "block_cost enc vcost (ImageBlock url d) = vcost url"

definition content_cost :: "(string \<Rightarrow> nat) \<Rightarrow> (string \<Rightarrow> nat) \<Rightarrow> content \<Rightarrow> nat" where
  "content_cost enc vcost c =
     (case c of Str s \<Rightarrow> enc s | Parts bs \<Rightarrow> sum_list (map (block_cost enc vcost) bs))"

text \<open>
  The estimate as the specification words it: 3 per message plus the cost of its
  content, and 3 at the end.
\<close>

definition spec_estimate :: "(string \<Rightarrow> nat) \<Rightarrow> (string \<Rightarrow> nat) \<Rightarrow> message list \<Rightarrow> nat" where
  "spec_estimate enc vcost ms =
     sum_list (map (\<lambda>m. 3 + content_cost enc vcost (content m)) ms) + 3"

text \<open>
  What every message costs besides its content: 3, the encoded length of its role and,
  for a function result, the encoded length of the function's name and 1.
\<close>

definition message_overhead :: "(string \<Rightarrow> nat) \<Rightarrow> message \<Rightarrow> nat" where
  "message_overhead enc m =
     3 + enc (role m) + (case name m of None \<Rightarrow> 0 | Some fn \<Rightarrow> enc fn + 1)"

definition keyed_estimate :: "(string \<Rightarrow> nat) \<Rightarrow> (string \<Rightarrow> nat) \<Rightarrow> message list \<Rightarrow> nat" where
  "keyed_estimate enc vcost ms =
     sum_list (map (\<lambda>m. message_overhead enc m + content_cost enc vcost (content m)) ms) + 3"

text \<open>Every text a history hands to the tokenizer: roles, names, strings and text blocks.\<close>

fun block_texts :: "block list \<Rightarrow> string list" where
  "block_texts [] = []"
| "block_texts (TextBlock t # bs) = t # block_texts bs"
| "block_texts (ImageBlock url d # bs) = block_texts bs"

fun encoded_strings :: "message list \<Rightarrow> string list" where
  "encoded_strings [] = []"
| "encoded_strings (m # ms) =
     role m # (case name m of None \<Rightarrow> [] | Some fn \<Rightarrow> [fn]) @
     (case content m of Str s \<Rightarrow> [s] | Parts bs \<Rightarrow> block_texts bs) @ encoded_strings ms"

text \<open>The URLs of the image blocks of a history, in order.\<close>

fun block_urls :: "block list \<Rightarrow> string list" where
  "block_urls [] = []"
| "block_urls (TextBlock t # bs) = block_urls bs"
| "block_urls (ImageBlock url d # bs) = url # block_urls bs"

fun image_urls :: "message list \<Rightarrow> string list" where
  "image_urls [] = []"
| "image_urls (m # ms) =
     (case content m of Str s \<Rightarrow> [] | Parts bs \<Rightarrow> block_urls bs) @ image_urls ms"

text \<open>
  The tile count as the specification words it: the short and the long edge, the
  factor \<open>f = max (short / 768) (long / 2048)\<close>, both edges divided by \<open>f\<close> when
  \<open>f > 1\<close> and cut to whole pixels, and the number of 512-pixel tiles per axis rounded up.
\<close>

definition spec_tiles :: "nat \<times> nat \<Rightarrow> nat" where
  "spec_tiles size0 =
     (let short = min (fst size0) (snd size0);
          long = max (fst size0) (snd size0);
          f = max (real short / 768) (real long / 2048);
          short' = (if f > 1 then nat \<lfloor>real short / f\<rfloor> else short);
          long' = (if f > 1 then nat \<lfloor>real long / f\<rfloor> else long)
      in nat \<lceil>real short' / 512\<rceil> * nat \<lceil>real long' / 512\<rceil>)"

text \<open>The family tuples of the source, and the families a model identifier belongs to.\<close>

definition MODEL_FAMILIES :: "string list list" where
  "MODEL_FAMILIES =
     [GPT_3_MODELS, GPT_3_16K_MODELS, GPT_4_MODELS, GPT_4_32K_MODELS, GPT_4_VISION_MODELS,
      GPT_4_128K_MODELS, GPT_4O_MODELS, GPT_4_1_MODELS, O_MODELS]"

definition families_of :: "string \<Rightarrow> string list list" where
  "families_of m = filter (\<lambda>family. m \<in> set family) MODEL_FAMILIES"

text \<open>
  The limits of a family: what the family's branch of \<^verbatim>\<open>default_max_tokens\<close> and the
  family's branch of \<^verbatim>\<open>__max_model_tokens\<close> return for a model.
\<close>

definition family_default_max_tokens :: "string list \<Rightarrow> string \<Rightarrow> int" where
  "family_default_max_tokens family m =
     (if family = GPT_3_MODELS then 1200
      else if family = GPT_4_MODELS then 1200 * 2
      else if family = GPT_3_16K_MODELS then
        (if m = ''gpt-3.5-turbo-1106'' then 4096 else 1200 * 4)
      else if family = GPT_4_32K_MODELS then 1200 * 8
      else if family = GPT_4_VISION_MODELS then 4096
      else if family = GPT_4_128K_MODELS then 4096
      else if family = GPT_4O_MODELS then 4096
      else if family = GPT_4_1_MODELS then 30000
      else if family = O_MODELS then 4096
      else 0)"

definition family_max_model_tokens :: "string list \<Rightarrow> string \<Rightarrow> int" where
  "family_max_model_tokens family m =
     (if family = GPT_3_MODELS then 4096
      else if family = GPT_3_16K_MODELS then 4096 * 4
      else if family = GPT_4_MODELS then 4096 * 2
      else if family = GPT_4_32K_MODELS then 4096 * 8
      else if family = GPT_4_VISION_MODELS then 4096 * 31
      else if family = GPT_4_128K_MODELS then 4096 * 31
      else if family = GPT_4O_MODELS then 4096 * 31
      else if family = GPT_4_1_MODELS then 4096 * 64
      else if family = O_MODELS then
        (if m = ''o1'' then 100000 else if m = ''o1-preview'' then 32768 else 65536)
      else 0)"

text \<open>
  A message in the structured shape as the specification words it: the role, and the
  content as blocks, text tagged by the direction of the role and images as
  \<open>input_image\<close> with their payload.
\<close>

definition text_tag :: "string \<Rightarrow> string" where
  "text_tag r =
     (if r = ''user'' \<or> r = ''system'' \<or> r = ''developer'' then ''input_text''
      else ''output_text'')"

definition structured_message :: "message \<Rightarrow> responses_message" where
  "structured_message m =
     \<lparr> rrole = role m,
       rcontent =
         (case content m of
            Str s \<Rightarrow> [TextPart (text_tag (role m)) s]
          | Parts bs \<Rightarrow>
              map (\<lambda>b. case b of
                          TextBlock t \<Rightarrow> TextPart (text_tag (role m)) t
                        | ImageBlock url d \<Rightarrow> ImagePart ''input_image'' (url, d)) bs) \<rparr>"

text \<open>The last \<open>n\<close> elements of a list (all of it when it is shorter).\<close>

definition last_n :: "nat \<Rightarrow> 'a list \<Rightarrow> 'a list" where
  "last_n n xs = drop (length xs - n) xs"

text \<open>
  The test \<^verbatim>\<open>__handle_function_call\<close> makes on a response: control reaches the plugin
  call.
\<close>

definition requests_function :: "bool \<Rightarrow> upstream_response \<Rightarrow> bool" where
  "requests_function stream r =
     (case requested_call stream r of
        Inl e \<Rightarrow> False
      | Inr (Plain returned) \<Rightarrow> False
      | Inr (Call function_name arguments) \<Rightarrow> True)"

text \<open>
  One round of \<^verbatim>\<open>__handle_function_call\<close>, up to its recursive call: the round either
  ends the chain with a result or goes on with the next response, the plugins used so far
  and the new world.
\<close>

datatype step =
    Done "world \<times> (error + resolved \<times> string list)"
  | Continue upstream_response "string list" world

definition resolver_step ::
  "config \<Rightarrow> (message list \<Rightarrow> string \<Rightarrow> bool \<Rightarrow> error + upstream_response)
     \<Rightarrow> (string \<Rightarrow> string \<Rightarrow> error + string) \<Rightarrow> (string \<Rightarrow> bool) \<Rightarrow> chat_id
     \<Rightarrow> upstream_response \<Rightarrow> bool \<Rightarrow> nat \<Rightarrow> string list \<Rightarrow> world \<Rightarrow> step"
where
  "resolver_step cfg create call_function is_direct_result cid response stream ntimes
       plugins_used w =
     (case requested_call stream response of
        Inl e \<Rightarrow> Done (w, Inl e)
      | Inr (Plain returned) \<Rightarrow> Done (w, Inr (ModelResponse returned, plugins_used))
      | Inr (Call function_name arguments) \<Rightarrow>
          (case call_function function_name arguments of
             Inl e \<Rightarrow>
               Done (w \<lparr> invoked := invoked w @ [(function_name, arguments)] \<rparr>, Inl e)
           | Inr function_response \<Rightarrow>
               (if is_direct_result function_response then
                  (case add_function_call_to_history (helper_state w) cid function_name
                          direct_result_note of
                     Inl e \<Rightarrow>
                       Done (w \<lparr> invoked := invoked w @ [(function_name, arguments)] \<rparr>,
                             Inl e)
                   | Inr st \<Rightarrow>
                       Done (w \<lparr> helper_state := st,
                                 invoked := invoked w @ [(function_name, arguments)] \<rparr>,
                             Inr (PluginResult function_response,
                                  if function_name \<in> set plugins_used then plugins_used
                                  else plugins_used @ [function_name])))
                else
                  (case add_function_call_to_history (helper_state w) cid function_name
                          function_response of
                     Inl e \<Rightarrow>
                       Done (w \<lparr> invoked := invoked w @ [(function_name, arguments)] \<rparr>,
                             Inl e)
                   | Inr st \<Rightarrow>
                       (case conversations st cid of
                          None \<Rightarrow>
                            Done (w \<lparr> helper_state := st,
                                      invoked := invoked w @ [(function_name, arguments)] \<rparr>,
                                  Inl KeyError)
                        | Some h \<Rightarrow>
                            (case create h (function_call_mode cfg ntimes) stream of
                               Inl e \<Rightarrow>
                                 Done (w \<lparr> helper_state := st,
                                           invoked := invoked w @ [(function_name, arguments)],
                                           resubmitted := resubmitted w @
                                             [function_call_mode cfg ntimes] \<rparr>,
                                       Inl e)
                             | Inr response' \<Rightarrow>
                                 Continue response'
                                   (if function_name \<in> set plugins_used then plugins_used
                                    else plugins_used @ [function_name])
                                   (w \<lparr> helper_state := st,
                                        invoked := invoked w @ [(function_name, arguments)],
                                        resubmitted := resubmitted w @
                                          [function_call_mode cfg ntimes] \<rparr>)))))))"

text \<open>The function tools of a response's tool calls, with the arguments the loop passes.\<close>

fun function_tools :: "tool_call list \<Rightarrow> (string \<times> string) list" where
  "function_tools [] = []"
| "function_tools (tool # tools) =
     (case (if tool_type tool = ''function'' then tool_function tool else None) of
        None \<Rightarrow> function_tools tools
      | Some (fn_name, args) \<Rightarrow>
          (fn_name, case args of None \<Rightarrow> ''{}'' | Some a \<Rightarrow> if a = [] then ''{}'' else a) #
          function_tools tools)"

subsection \<open>Sample data\<close>

text \<open>
  A configuration for the examples, and a stand-in tokenizer: it refuses the text that
  spells the end-of-text token, and gives no token for the empty string and one for any
  other string.
\<close>

definition sample_config :: config where
  "sample_config =
     \<lparr> model = ''gpt-4o'', vision_model = ''gpt-4o'', vision_detail = ''auto'',
       assistant_prompt = ''You are a helpful assistant.'', max_tokens = 4096,
       max_history_size = 15, max_conversation_age_minutes = 180,
       functions_max_consecutive_calls = 10, enable_functions = True,
       use_responses_api = False \<rparr>"

definition unit_length :: "string \<Rightarrow> nat" where
  "unit_length s = (if s = [] then 0 else 1)"

definition unit_encoding :: "string \<Rightarrow> nat option" where
  "unit_encoding s = (if s = ''<|endoftext|>'' then None else Some (unit_length s))"

definition empty_helper :: helper where
  "empty_helper =
     \<lparr> conversations = Map.empty, conversations_vision = Map.empty,
       last_updated = Map.empty \<rparr>"

text \<open>
  A world in which chat 7 has a priming message and one user turn, and nothing has been
  called or resubmitted yet.
\<close>

definition sample_world :: world where
  "sample_world =
     \<lparr> helper_state =
         \<lparr> conversations =
             [7 \<mapsto> [\<lparr> role = ''system'', name = None, content = Str ''Be brief.'' \<rparr>,
                     \<lparr> role = ''user'', name = None, content = Str ''Hi'' \<rparr>]],
           conversations_vision = [7 \<mapsto> False],
           last_updated = Map.empty \<rparr>,
       invoked = [],
       resubmitted = [] \<rparr>"

text \<open>
  An upstream model that asks for the weather function whenever function calling is not
  disabled, and a plugin manager that answers every call.
\<close>

definition asks_weather :: completion where
  "asks_weather =
     \<lparr> choices = [\<lparr> message_content = [], function_call = Some (''weather'', ''{}'') \<rparr>],
       total_tokens = 20 \<rparr>"

definition plain_answer :: completion where
  "plain_answer =
     \<lparr> choices = [\<lparr> message_content = ''It is sunny.'', function_call = None \<rparr>],
       total_tokens = 30 \<rparr>"

text \<open>The same two answers as streams of chunks.\<close>

definition weather_stream :: "chunk list" where
  "weather_stream =
     [\<lparr> chunk_choices =
          [\<lparr> delta_function_call = Some (''weather'', []), finish_reason = None \<rparr>] \<rparr>,
      \<lparr> chunk_choices =
          [\<lparr> delta_function_call = Some ([], ''{}''), finish_reason = None \<rparr>] \<rparr>,
      \<lparr> chunk_choices =
          [\<lparr> delta_function_call = None, finish_reason = Some ''function_call'' \<rparr>] \<rparr>]"

definition plain_stream :: "chunk list" where
  "plain_stream =
     [\<lparr> chunk_choices = [\<lparr> delta_function_call = None, finish_reason = None \<rparr>] \<rparr>,
      \<lparr> chunk_choices = [\<lparr> delta_function_call = None, finish_reason = Some ''stop'' \<rparr>] \<rparr>]"

definition eager_create :: "message list \<Rightarrow> string \<Rightarrow> bool \<Rightarrow> error + upstream_response" where
  "eager_create h mode stream =
     Inr (if stream then Stream (if mode = ''none'' then plain_stream else weather_stream)
          else Completion (if mode = ''none'' then plain_answer else asks_weather))"

definition weather_plugin :: "string \<Rightarrow> string \<Rightarrow> error + string" where
  "weather_plugin fn args = Inr ''sunny''"

text \<open>
  A plugin that delivers a photo itself and returns a result marked as direct, with the
  predicate that recognises the mark.
\<close>

definition photo_sent :: string where
  "photo_sent = ''direct_result: photo''"

definition photo_plugin :: "string \<Rightarrow> string \<Rightarrow> error + string" where
  "photo_plugin fn args = Inr photo_sent"

definition is_photo_sent :: "string \<Rightarrow> bool" where
  "is_photo_sent r = (r = photo_sent)"

text \<open>
  The same in the structured shape: a response that requires the output of one function
  tool, an upstream that requires it again after every submission, and one that is
  content with the first.
\<close>

definition action_response :: response where
  "action_response =
     \<lparr> response_id = ''resp_1'', status = ''requires_action'',
       submit_tool_outputs =
         Some [\<lparr> tool_id = ''call_1'', tool_type = ''function'',
                  tool_function = Some (''weather'', None) \<rparr>],
       output_text = [] \<rparr>"

definition completed_response :: response where
  "completed_response =
     \<lparr> response_id = ''resp_1'', status = ''completed'', submit_tool_outputs = None,
       output_text = ''It is sunny.'' \<rparr>"

definition eager_submit :: "string \<Rightarrow> (string \<times> string) list \<Rightarrow> error + response" where
  "eager_submit i tool_outputs = Inr action_response"

definition content_submit :: "string \<Rightarrow> (string \<times> string) list \<Rightarrow> error + response" where
  "content_submit i tool_outputs = Inr completed_response"

section \<open>Properties\<close>

subsection \<open>Token accountant: the running total\<close>

text \<open>
  The loops of the accountant add to the running total: a successful run from \<open>n\<close>
  ends at \<open>n\<close> or above, and from any other start it succeeds with the same increase.
\<close>

lemma count_blocks_shift:
  "count_blocks cfg enc dims bs n = Inr r \<Longrightarrow>
     n \<le> r \<and> count_blocks cfg enc dims bs n' = Inr (n' + (r - n))"
proof (induction bs arbitrary: n n' r)
  case Nil
  then show ?case by simp
next
  case (Cons b bs)
  show ?case
  proof (cases b)
    case (TextBlock t)
    with Cons.prems obtain k where
      k: "encoded_length enc t = Inr k"
      and r: "count_blocks cfg enc dims bs (n + k) = Inr r"
      by (auto split: sum.splits)
    from Cons.IH[OF r, of "n' + k"] TextBlock k show ?thesis by auto
  next
    case (ImageBlock url d)
    with Cons.prems obtain k where
      k: "count_tokens_vision cfg (dims url) = Inr k"
      and r: "count_blocks cfg enc dims bs (n + k) = Inr r"
      by (auto split: sum.splits)
    from Cons.IH[OF r, of "n' + k"] ImageBlock k show ?thesis by auto
  qed
qed

text \<open>
  A message whose role and name the tokenizer accepts: the overhead before the content
  is read.
\<close>

lemma count_message_unfold:
  assumes "enc (role m) = Some r"
      and "case name m of None \<Rightarrow> k = 0 | Some fn \<Rightarrow> \<exists>j. enc fn = Some j \<and> k = j + 1"
  shows "count_message cfg enc dims m n =
           (case content m of
              Str s \<Rightarrow>
                (case encoded_length enc s of
                   Inl e \<Rightarrow> Inl e
                 | Inr j \<Rightarrow> Inr (n + (3 + r + k) + j))
            | Parts bs \<Rightarrow> count_blocks cfg enc dims bs (n + (3 + r + k)))"
  using assms
  by (auto simp: count_message_def encoded_length_def Let_def ac_simps
           split: option.splits content.splits sum.splits)

lemma count_message_accepts:
  assumes "count_message cfg enc dims m n = Inr x"
  shows "\<exists>r k. enc (role m) = Some r
           \<and> (case name m of None \<Rightarrow> k = 0 | Some fn \<Rightarrow> \<exists>j. enc fn = Some j \<and> k = j + 1)"
  using assms
  by (auto simp: count_message_def encoded_length_def Let_def
           split: option.splits sum.splits)

lemma count_message_shift:
  assumes "count_message cfg enc dims m n = Inr x"
  shows "n \<le> x \<and> count_message cfg enc dims m n' = Inr (n' + (x - n))"
proof -
  from count_message_accepts[OF assms] obtain r k where
    r: "enc (role m) = Some r"
    and k: "case name m of None \<Rightarrow> k = 0 | Some fn \<Rightarrow> \<exists>j. enc fn = Some j \<and> k = j + 1"
    by blast
  note unfold = count_message_unfold[OF r k]
  show ?thesis
  proof (cases "content m")
    case (Str s)
    with assms show ?thesis
      by (auto simp: unfold split: sum.splits)
  next
    case (Parts bs)
    with assms have "count_blocks cfg enc dims bs (n + (3 + r + k)) = Inr x"
      by (simp add: unfold)
    from count_blocks_shift[OF this, of "n' + (3 + r + k)"] Parts
    show ?thesis by (auto simp: unfold)
  qed
qed

lemma count_messages_append:
  "count_messages cfg enc dims (ms @ [m]) n =
     (case count_messages cfg enc dims ms n of
        Inl e \<Rightarrow> Inl e
      | Inr n' \<Rightarrow> count_message cfg enc dims m n')"
  by (induction ms arbitrary: n) (auto split: sum.splits)

text \<open>Only the vision cost and the tokenizer can make the loops fail.\<close>

lemma count_tokens_vision_errors:
  "count_tokens_vision cfg sz = Inl e \<Longrightarrow>
     e = UnsupportedVisionModel \<or> e = UnsupportedDetailLevel"
  by (auto simp: count_tokens_vision_def Let_def split: if_splits prod.splits)

lemma encoded_length_errors: "encoded_length enc s = Inl e \<Longrightarrow> e = ValueError"
  by (auto simp: encoded_length_def split: option.splits)

lemma count_blocks_errors:
  "count_blocks cfg enc dims bs n = Inl e \<Longrightarrow>
     e = UnsupportedVisionModel \<or> e = UnsupportedDetailLevel \<or> e = ValueError"
proof (induction bs arbitrary: n)
  case Nil
  then show ?case by simp
next
  case (Cons b bs)
  then show ?case
    by (cases b)
       (auto split: sum.splits dest: count_tokens_vision_errors encoded_length_errors)
qed

lemma count_message_errors:
  "count_message cfg enc dims m n = Inl e \<Longrightarrow>
     e = UnsupportedVisionModel \<or> e = UnsupportedDetailLevel \<or> e = ValueError"
  by (auto simp: count_message_def Let_def
           split: sum.splits option.splits content.splits
           dest: count_blocks_errors encoded_length_errors)

lemma count_messages_errors:
  "count_messages cfg enc dims ms n = Inl e \<Longrightarrow>
     e = UnsupportedVisionModel \<or> e = UnsupportedDetailLevel \<or> e = ValueError"
proof (induction ms arbitrary: n)
  case Nil
  then show ?case by simp
next
  case (Cons m ms)
  then show ?case
    by (auto split: sum.splits dest: count_message_errors)
qed

text \<open>Membership in the sample configuration's model lists, for the examples.\<close>

lemma sample_model_supported: "model sample_config \<in> set GPT_ALL_MODELS"
  by (simp add: sample_config_def GPT_ALL_MODELS_def GPT_4_VISION_MODELS_def)

lemma sample_vision_model_supported: "vision_model sample_config \<in> set GPT_4_VISION_MODELS"
  by (simp add: sample_config_def GPT_4_VISION_MODELS_def)

lemma count_tokens_single_text:
  "model cfg \<in> set GPT_ALL_MODELS \<Longrightarrow> enc r = Some i \<Longrightarrow> enc s = Some j \<Longrightarrow>
     count_tokens cfg enc dims [\<lparr> role = r, name = None, content = Str s \<rparr>] =
       Inr (3 + i + j + 3)"
  by (simp add: count_tokens_def count_message_def encoded_length_def)

lemma unit_encoding_words:
  "unit_encoding ''system'' = Some 1" "unit_encoding ''user'' = Some 1"
  "unit_encoding ''function'' = Some 1" "unit_encoding ''Hi'' = Some 1"
  "unit_encoding ''Be brief.'' = Some 1" "unit_encoding ''weather'' = Some 1"
  "unit_encoding ''sunny'' = Some 1" "unit_encoding ''What is this?'' = Some 1"
  "unit_encoding ''You are a helpful assistant.'' = Some 1"
  by (simp_all add: unit_encoding_def unit_length_def)

subsection \<open>Appending a message never lowers the estimate\<close>

text \<open>
  Claim C9. When the accountant accepts a message list \<open>ms\<close> (its estimate is \<open>a\<close>) and
  accepts a message \<open>m\<close>, it accepts \<open>ms @ [m]\<close> as well, and the estimate of the longer
  list is at least \<open>a\<close>.
\<close>

theorem count_tokens_append_mono:
  assumes "count_tokens cfg enc dims ms = Inr a"
      and "count_tokens cfg enc dims [m] = Inr c"
  shows "\<exists>b. count_tokens cfg enc dims (ms @ [m]) = Inr b \<and> a \<le> b"
proof -
  from assms(1) obtain a' where supported: "model cfg \<in> set GPT_ALL_MODELS"
    and a': "count_messages cfg enc dims ms 0 = Inr a'" and a: "a = a' + 3"
    by (auto simp: count_tokens_def split: if_splits sum.splits)
  from assms(2) obtain c' where c': "count_message cfg enc dims m 0 = Inr c'"
    by (auto simp: count_tokens_def split: if_splits sum.splits)
  from count_message_shift[OF c', of a']
  have "count_message cfg enc dims m a' = Inr (a' + c')" by simp
  with a' supported have "count_tokens cfg enc dims (ms @ [m]) = Inr (a' + c' + 3)"
    by (simp add: count_tokens_def count_messages_append)
  with a show ?thesis by simp
qed

theorem count_tokens_append_mono_witness:
  "\<exists>b. count_tokens sample_config unit_encoding (\<lambda>u. (0, 0))
          ([\<lparr> role = ''system'', name = None, content = Str ''Be brief.'' \<rparr>] @
           [\<lparr> role = ''user'', name = None, content = Str ''Hi'' \<rparr>]) = Inr b \<and> 8 \<le> b"
proof -
  have a: "count_tokens sample_config unit_encoding (\<lambda>u. (0, 0))
             [\<lparr> role = ''system'', name = None, content = Str ''Be brief.'' \<rparr>] = Inr 8"
    by (simp add: count_tokens_single_text[OF sample_model_supported unit_encoding_words(1)
                                              unit_encoding_words(5)])
  have c: "count_tokens sample_config unit_encoding (\<lambda>u. (0, 0))
             [\<lparr> role = ''user'', name = None, content = Str ''Hi'' \<rparr>] = Inr 8"
    by (simp add: count_tokens_single_text[OF sample_model_supported unit_encoding_words(2)
                                              unit_encoding_words(4)])
  from count_tokens_append_mono[OF a c] show ?thesis .
qed

subsection \<open>The estimate as a sum over the messages\<close>

lemmas family_defs =
  GPT_3_MODELS_def GPT_3_16K_MODELS_def GPT_4_MODELS_def GPT_4_32K_MODELS_def
  GPT_4_VISION_MODELS_def GPT_4_128K_MODELS_def GPT_4O_MODELS_def GPT_4_1_MODELS_def
  O_MODELS_def

lemma count_blocks_sum:
  assumes "\<forall>u \<in> set (block_urls bs). count_tokens_vision cfg (dims u) = Inr (vcost u)"
      and "\<forall>s \<in> set (block_texts bs). enc s = Some (len s)"
  shows "count_blocks cfg enc dims bs n = Inr (n + sum_list (map (block_cost len vcost) bs))"
  using assms
proof (induction bs arbitrary: n)
  case Nil
  then show ?case by simp
next
  case (Cons b bs)
  then show ?case by (cases b) (simp_all add: encoded_length_def)
qed

lemma count_messages_sum:
  assumes "\<forall>u \<in> set (image_urls ms). count_tokens_vision cfg (dims u) = Inr (vcost u)"
      and "\<forall>s \<in> set (encoded_strings ms). enc s = Some (len s)"
  shows "count_messages cfg enc dims ms n =
           Inr (n + sum_list (map (\<lambda>m. message_overhead len m +
                                        content_cost len vcost (content m)) ms))"
  using assms
proof (induction ms arbitrary: n)
  case Nil
  then show ?case by simp
next
  case (Cons m ms)
  from Cons.prems(2) have r: "enc (role m) = Some (len (role m))" by simp
  from Cons.prems(2)
  have k: "case name m of
             None \<Rightarrow> (case name m of None \<Rightarrow> 0 | Some fn \<Rightarrow> len fn + 1) = 0
           | Some fn \<Rightarrow> \<exists>j. enc fn = Some j
                          \<and> (case name m of None \<Rightarrow> 0 | Some fn \<Rightarrow> len fn + 1) = j + 1"
    by (auto split: option.splits)
  note unfold = count_message_unfold[OF r k]
  from Cons.prems have rest:
    "\<forall>u \<in> set (image_urls ms). count_tokens_vision cfg (dims u) = Inr (vcost u)"
    "\<forall>s \<in> set (encoded_strings ms). enc s = Some (len s)"
    by simp_all
  note IH = Cons.IH[OF rest]
  show ?case
  proof (cases "content m")
    case (Str s)
    with Cons.prems(2) have "enc s = Some (len s)" by simp
    with Str show ?thesis
      by (simp add: unfold IH content_cost_def message_overhead_def encoded_length_def)
  next
    case (Parts bs)
    with Cons.prems
    have "\<forall>u \<in> set (block_urls bs). count_tokens_vision cfg (dims u) = Inr (vcost u)"
      and "\<forall>s \<in> set (block_texts bs). enc s = Some (len s)"
      by simp_all
    from count_blocks_sum[OF this] Parts show ?thesis
      by (simp add: unfold IH content_cost_def message_overhead_def)
  qed
qed

text \<open>A text the tokenizer refuses makes the estimate of a supported model fail.\<close>

lemma count_blocks_refused:
  assumes "s \<in> set (block_texts bs)" and "enc s = None"
  shows "\<exists>e. count_blocks cfg enc dims bs n = Inl e"
  using assms
proof (induction bs arbitrary: n)
  case Nil
  then show ?case by simp
next
  case (Cons b bs)
  then show ?case
    by (cases b) (auto simp: encoded_length_def split: sum.splits)
qed

lemma count_message_refused:
  assumes "s \<in> set (role m # (case name m of None \<Rightarrow> [] | Some fn \<Rightarrow> [fn]) @
                        (case content m of Str s \<Rightarrow> [s] | Parts bs \<Rightarrow> block_texts bs))"
      and "enc s = None"
  shows "\<exists>e. count_message cfg enc dims m n = Inl e"
proof (cases "count_message cfg enc dims m n")
  case (Inl e)
  then show ?thesis by simp
next
  case (Inr x)
  from count_message_accepts[OF Inr] obtain r k where
    r: "enc (role m) = Some r"
    and k: "case name m of None \<Rightarrow> k = 0 | Some fn \<Rightarrow> \<exists>j. enc fn = Some j \<and> k = j + 1"
    by blast
  from assms r k have content:
    "s \<in> set (case content m of Str s \<Rightarrow> [s] | Parts bs \<Rightarrow> block_texts bs)"
    by (auto split: option.splits)
  show ?thesis
  proof (cases "content m")
    case (Str t)
    with content assms(2) show ?thesis
      by (simp add: count_message_unfold[OF r k] encoded_length_def)
  next
    case (Parts bs)
    with content have "s \<in> set (block_texts bs)" by simp
    from count_blocks_refused[where enc = enc, OF this assms(2)] Parts show ?thesis
      by (simp add: count_message_unfold[OF r k])
  qed
qed

lemma count_messages_refused:
  assumes "s \<in> set (encoded_strings ms)" and "enc s = None"
  shows "\<exists>e. count_messages cfg enc dims ms n = Inl e"
  using assms
proof (induction ms arbitrary: n)
  case Nil
  then show ?case by simp
next
  case (Cons m ms)
  show ?case
  proof (cases "s \<in> set (role m # (case name m of None \<Rightarrow> [] | Some fn \<Rightarrow> [fn]) @
                            (case content m of Str s \<Rightarrow> [s] | Parts bs \<Rightarrow> block_texts bs))")
    case True
    from count_message_refused[where enc = enc and cfg = cfg and dims = dims and n = n,
                               OF True Cons.prems(2)]
    show ?thesis
      by auto
  next
    case False
    with Cons.prems(1) have "s \<in> set (encoded_strings ms)" by auto
    from Cons.IH[OF this Cons.prems(2)] show ?thesis
      by (auto split: sum.splits)
  qed
qed

text \<open>
  Claim C6, as the code has it. For a model of \<open>GPT_ALL_MODELS\<close>, when the tokenizer
  accepts every text of the list (roles, names, strings and text blocks; \<open>len\<close> is the
  encoded length) and the vision cost of every image in the list is defined (\<open>vcost\<close>),
  the estimate is the sum over the messages of 3, the encoded length of the role, for a
  function result the encoded length of its name plus 1, and the cost of the content (a
  string by its encoded length, a block list by the sum of its blocks' costs), plus 3 at
  the end. When the tokenizer refuses a text of the list the estimate fails. For any
  other model the estimate fails with the unsupported-model error, whatever the messages.
\<close>

theorem count_tokens_keyed_estimate:
  "(model cfg \<in> set GPT_ALL_MODELS \<longrightarrow>
      (\<forall>s \<in> set (encoded_strings ms). enc s = Some (len s)) \<longrightarrow>
      (\<forall>u \<in> set (image_urls ms). count_tokens_vision cfg (dims u) = Inr (vcost u)) \<longrightarrow>
      count_tokens cfg enc dims ms = Inr (keyed_estimate len vcost ms))
   \<and> (model cfg \<in> set GPT_ALL_MODELS \<longrightarrow>
        (\<exists>s \<in> set (encoded_strings ms). enc s = None) \<longrightarrow>
        (\<exists>e. count_tokens cfg enc dims ms = Inl e \<and> e \<noteq> UnsupportedModel))
   \<and> (model cfg \<notin> set GPT_ALL_MODELS \<longrightarrow>
        count_tokens cfg enc dims ms = Inl UnsupportedModel)"
proof (intro conjI impI)
  assume supported: "model cfg \<in> set GPT_ALL_MODELS"
    and texts: "\<forall>s \<in> set (encoded_strings ms). enc s = Some (len s)"
    and images: "\<forall>u \<in> set (image_urls ms). count_tokens_vision cfg (dims u) = Inr (vcost u)"
  from supported count_messages_sum[OF images texts, of 0]
  show "count_tokens cfg enc dims ms = Inr (keyed_estimate len vcost ms)"
    by (simp add: count_tokens_def keyed_estimate_def)
next
  assume supported: "model cfg \<in> set GPT_ALL_MODELS"
    and "\<exists>s \<in> set (encoded_strings ms). enc s = None"
  then obtain s where "s \<in> set (encoded_strings ms)" and "enc s = None" by blast
  from count_messages_refused[where enc = enc, OF this] obtain e where
    e: "count_messages cfg enc dims ms 0 = Inl e" by blast
  from count_messages_errors[OF e] have "e \<noteq> UnsupportedModel" by auto
  with supported e show "\<exists>e. count_tokens cfg enc dims ms = Inl e \<and> e \<noteq> UnsupportedModel"
    by (simp add: count_tokens_def)
next
  assume "model cfg \<notin> set GPT_ALL_MODELS"
  then show "count_tokens cfg enc dims ms = Inl UnsupportedModel"
    by (simp add: count_tokens_def)
qed

lemma sample_vision_cost: "count_tokens_vision sample_config (1024, 1024) = Inr 765"
  by (simp add: count_tokens_vision_def sample_config_def GPT_4_VISION_MODELS_def Let_def)

theorem count_tokens_keyed_estimate_witness:
  "count_tokens sample_config unit_encoding (\<lambda>u. (1024, 1024))
     [\<lparr> role = ''system'', name = None, content = Str ''Be brief.'' \<rparr>,
      \<lparr> role = ''user'', name = None,
        content = Parts [TextBlock ''What is this?'', ImageBlock ''data:1'' ''auto''] \<rparr>,
      \<lparr> role = ''function'', name = Some ''weather'', content = Str ''sunny'' \<rparr>] = Inr 785
   \<and> (\<exists>e. count_tokens sample_config unit_encoding (\<lambda>u. (1024, 1024))
             [\<lparr> role = ''user'', name = None, content = Str ''<|endoftext|>'' \<rparr>] = Inl e
           \<and> e \<noteq> UnsupportedModel)
   \<and> count_tokens (sample_config \<lparr> model := ''llama-3'' \<rparr>) unit_encoding
         (\<lambda>u. (1024, 1024)) [] = Inl UnsupportedModel"
proof -
  define ms where
    "ms = [\<lparr> role = ''system'', name = None, content = Str ''Be brief.'' \<rparr>,
           \<lparr> role = ''user'', name = None,
             content = Parts [TextBlock ''What is this?'', ImageBlock ''data:1'' ''auto''] \<rparr>,
           \<lparr> role = ''function'', name = Some ''weather'', content = Str ''sunny'' \<rparr>]"
  define bad where
    "bad = [\<lparr> role = ''user'', name = None, content = Str ''<|endoftext|>'' \<rparr>]"
  have other: "model (sample_config \<lparr> model := ''llama-3'' \<rparr>) \<notin> set GPT_ALL_MODELS"
    by (simp add: GPT_ALL_MODELS_def family_defs)
  have texts: "\<forall>s \<in> set (encoded_strings ms). unit_encoding s = Some (unit_length s)"
    by (simp add: ms_def unit_encoding_def)
  have images: "\<forall>u \<in> set (image_urls ms).
                  count_tokens_vision sample_config ((\<lambda>u. (1024, 1024)) u) = Inr ((\<lambda>u. 765) u)"
    by (simp add: sample_vision_cost)
  have refused: "\<exists>s \<in> set (encoded_strings bad). unit_encoding s = None"
    by (simp add: bad_def unit_encoding_def)
  have sum: "keyed_estimate unit_length (\<lambda>u. 765) ms = 785"
    by (simp add: ms_def keyed_estimate_def message_overhead_def content_cost_def
                  unit_length_def)
  from count_tokens_keyed_estimate
         [where cfg = sample_config and ms = ms and enc = unit_encoding and len = unit_length
            and dims = "\<lambda>u. (1024, 1024)" and vcost = "\<lambda>u. 765"]
       sample_model_supported texts images sum
  have one: "count_tokens sample_config unit_encoding (\<lambda>u. (1024, 1024)) ms = Inr 785"
    by simp
  from count_tokens_keyed_estimate
         [where cfg = sample_config and ms = bad and enc = unit_encoding
            and dims = "\<lambda>u. (1024, 1024)"]
       sample_model_supported refused
  have two: "\<exists>e. count_tokens sample_config unit_encoding (\<lambda>u. (1024, 1024)) bad = Inl e
               \<and> e \<noteq> UnsupportedModel"
    by blast
  from count_tokens_keyed_estimate
         [where cfg = "sample_config \<lparr> model := ''llama-3'' \<rparr>" and ms = "[]"
            and enc = unit_encoding and dims = "\<lambda>u. (1024, 1024)"]
       other
  have three: "count_tokens (sample_config \<lparr> model := ''llama-3'' \<rparr>) unit_encoding
                 (\<lambda>u. (1024, 1024)) [] = Inl UnsupportedModel"
    by blast
  from one two three show ?thesis
    unfolding ms_def bad_def by blast
qed

text \<open>
  The formula of the specification leaves the role (and the name) out: on a single user
  turn, whose two texts the tokenizer accepts with one token each, it gives 7 where the
  code gives 8.
\<close>

theorem count_tokens_spec_estimate_counterexample:
  "unit_encoding ''user'' = Some (unit_length ''user'')
   \<and> unit_encoding ''Hi'' = Some (unit_length ''Hi'')
   \<and> count_tokens sample_config unit_encoding (\<lambda>u. (1024, 1024))
       [\<lparr> role = ''user'', name = None, content = Str ''Hi'' \<rparr>] = Inr 8
   \<and> spec_estimate unit_length (\<lambda>u. 765)
         [\<lparr> role = ''user'', name = None, content = Str ''Hi'' \<rparr>] = 7"
  by (simp add: count_tokens_single_text[OF sample_model_supported unit_encoding_words(2)
                                            unit_encoding_words(4)]
                spec_estimate_def content_cost_def unit_encoding_def unit_length_def)

subsection \<open>Vision cost\<close>

lemma int_ceil_div_512: "- ((- a) div 512) = (a + 511) div (512::int)"
  by linarith

lemma ceil_div_512: "nat \<lceil>real n / 512\<rceil> = (n + 511) div 512"
proof -
  have "real n / 512 = of_int (int n) / of_int 512" by simp
  then have "\<lceil>real n / 512\<rceil> = - ((- int n) div 512)"
    by (simp only: ceiling_divide_eq_div)
  also have "\<dots> = (int n + 511) div 512" by (rule int_ceil_div_512)
  also have "\<dots> = int ((n + 511) div 512)" by (simp add: zdiv_int)
  finally show ?thesis by simp
qed

text \<open>
  Claim C7, as the code has it. When the configured vision model is in
  \<open>GPT_4_VISION_MODELS\<close>: at detail \<open>low\<close> the cost is 85 for every size; at \<open>high\<close> or
  \<open>auto\<close> it is 85 plus 170 for every tile of \<open>spec_tiles\<close>; at any other detail the cost
  fails with the unsupported-detail error.
\<close>

theorem count_tokens_vision_cost:
  assumes "vision_model cfg \<in> set GPT_4_VISION_MODELS"
  shows "count_tokens_vision cfg (w, h) =
           (if vision_detail cfg = ''low'' then Inr 85
            else if vision_detail cfg = ''high'' \<or> vision_detail cfg = ''auto''
                 then Inr (85 + 170 * spec_tiles (w, h))
                 else Inl UnsupportedDetailLevel)"
proof (cases "w > h")
  case True
  then have "min w h = h" "max w h = w" by simp_all
  with True assms show ?thesis
    by (simp add: count_tokens_vision_def spec_tiles_def Let_def ceil_div_512 mult.commute)
next
  case False
  then have "min w h = w" "max w h = h" by simp_all
  with False assms show ?thesis
    by (simp add: count_tokens_vision_def spec_tiles_def Let_def ceil_div_512 mult.commute)
qed

theorem count_tokens_vision_cost_witness:
  "count_tokens_vision sample_config (1024, 1024) = Inr 765
   \<and> count_tokens_vision (sample_config \<lparr> vision_detail := ''high'' \<rparr>) (512, 512) = Inr 255
   \<and> count_tokens_vision (sample_config \<lparr> vision_detail := ''low'' \<rparr>) (4000, 3000) = Inr 85
   \<and> count_tokens_vision (sample_config \<lparr> vision_detail := ''medium'' \<rparr>) (4000, 3000) =
       Inl UnsupportedDetailLevel"
proof -
  have m: "\<And>d. vision_model (sample_config \<lparr> vision_detail := d \<rparr>) \<in> set GPT_4_VISION_MODELS"
    by (simp add: sample_config_def GPT_4_VISION_MODELS_def)
  have t1: "spec_tiles (1024, 1024) = 4" by (simp add: spec_tiles_def Let_def)
  have t2: "spec_tiles (512, 512) = 1" by (simp add: spec_tiles_def Let_def)
  show ?thesis
    using count_tokens_vision_cost[OF sample_vision_model_supported, of 1024 1024]
          count_tokens_vision_cost[OF m, of "''high''" 512 512]
          count_tokens_vision_cost[OF m, of "''low''" 4000 3000]
          count_tokens_vision_cost[OF m, of "''medium''" 4000 3000]
          t1 t2
    by (simp add: sample_config_def)
qed

text \<open>With another vision model the cost fails before the detail is looked at.\<close>

theorem count_tokens_vision_low_counterexample:
  "count_tokens_vision
     (sample_config \<lparr> vision_model := ''gpt-4o-mini'', vision_detail := ''low'' \<rparr>)
     (1024, 1024) = Inl UnsupportedVisionModel"
  by (simp add: count_tokens_vision_def sample_config_def GPT_4_VISION_MODELS_def)

subsection \<open>Model families and the lookups\<close>

lemma set_GPT_ALL_MODELS:
  "set GPT_ALL_MODELS =
     set GPT_3_MODELS \<union> set GPT_3_16K_MODELS \<union> set GPT_4_MODELS \<union> set GPT_4_32K_MODELS \<union>
     set GPT_4_VISION_MODELS \<union> set GPT_4_128K_MODELS \<union> set GPT_4O_MODELS \<union>
     set GPT_4_1_MODELS \<union> set O_MODELS"
  by (simp add: GPT_ALL_MODELS_def Un_assoc)

lemma max_model_tokens_undefined:
  "model cfg \<notin> set GPT_ALL_MODELS \<Longrightarrow> max_model_tokens cfg = Inl MaxTokensNotImplemented"
  by (simp add: max_model_tokens_def set_GPT_ALL_MODELS Let_def)

lemma count_tokens_not_unsupported:
  "model cfg \<in> set GPT_ALL_MODELS \<Longrightarrow> count_tokens cfg enc dims ms \<noteq> Inl UnsupportedModel"
  by (auto simp: count_tokens_def split: sum.splits dest: count_messages_errors)

text \<open>
  The identifiers family by family. Every identifier of a family other than
  \<open>gpt-4-turbo-preview\<close> is in no other family, but for \<open>gpt-4o\<close>, which the vision family
  and the 4o family share.
\<close>

lemma families_of_GPT_3:
  "\<forall>m \<in> set GPT_3_MODELS. families_of m = [GPT_3_MODELS]"
  by (simp add: families_of_def MODEL_FAMILIES_def family_defs)

lemma families_of_GPT_3_16K:
  "\<forall>m \<in> set GPT_3_16K_MODELS. families_of m = [GPT_3_16K_MODELS]"
  by (simp add: families_of_def MODEL_FAMILIES_def family_defs)

lemma families_of_GPT_4:
  "\<forall>m \<in> set GPT_4_MODELS. m \<noteq> ''gpt-4-turbo-preview'' \<longrightarrow> families_of m = [GPT_4_MODELS]"
  by (simp add: families_of_def MODEL_FAMILIES_def family_defs)

lemma families_of_GPT_4_32K:
  "\<forall>m \<in> set GPT_4_32K_MODELS. families_of m = [GPT_4_32K_MODELS]"
  by (simp add: families_of_def MODEL_FAMILIES_def family_defs)

lemma families_of_gpt_4o:
  "families_of ''gpt-4o'' = [GPT_4_VISION_MODELS, GPT_4O_MODELS]"
  by (simp add: families_of_def MODEL_FAMILIES_def family_defs)

lemma families_of_GPT_4_128K:
  "\<forall>m \<in> set GPT_4_128K_MODELS.
     m \<noteq> ''gpt-4-turbo-preview'' \<longrightarrow> families_of m = [GPT_4_128K_MODELS]"
  by (simp add: families_of_def MODEL_FAMILIES_def family_defs)

lemma families_of_GPT_4O:
  "\<forall>m \<in> set GPT_4O_MODELS. m \<noteq> ''gpt-4o'' \<longrightarrow> families_of m = [GPT_4O_MODELS]"
  by (simp add: families_of_def MODEL_FAMILIES_def family_defs)

lemma families_of_GPT_4_1:
  "\<forall>m \<in> set GPT_4_1_MODELS. families_of m = [GPT_4_1_MODELS]"
  by (simp add: families_of_def MODEL_FAMILIES_def family_defs)

lemma families_of_O:
  "\<forall>m \<in> set O_MODELS. families_of m = [O_MODELS]"
  by (simp add: families_of_def MODEL_FAMILIES_def family_defs)

lemma families_of_known:
  assumes "m \<in> set GPT_ALL_MODELS" and "m \<noteq> ''gpt-4-turbo-preview''"
  shows "(m \<noteq> ''gpt-4o'' \<longrightarrow> length (families_of m) = 1)
         \<and> (m = ''gpt-4o'' \<longrightarrow> families_of m = [GPT_4_VISION_MODELS, GPT_4O_MODELS])"
proof (cases "m = ''gpt-4o''")
  case True
  then show ?thesis by (simp add: families_of_gpt_4o)
next
  case False
  have vision: "m \<notin> set GPT_4_VISION_MODELS"
    using False by (simp add: GPT_4_VISION_MODELS_def)
  from assms(1) vision
  consider "m \<in> set GPT_3_MODELS" | "m \<in> set GPT_3_16K_MODELS" | "m \<in> set GPT_4_MODELS"
    | "m \<in> set GPT_4_32K_MODELS" | "m \<in> set GPT_4_128K_MODELS" | "m \<in> set GPT_4O_MODELS"
    | "m \<in> set GPT_4_1_MODELS" | "m \<in> set O_MODELS"
    by (auto simp: set_GPT_ALL_MODELS)
  then have "length (families_of m) = 1"
  proof cases
    case 1 with families_of_GPT_3 show ?thesis by simp
  next
    case 2 with families_of_GPT_3_16K show ?thesis by simp
  next
    case 3 with families_of_GPT_4 assms(2) show ?thesis by simp
  next
    case 4 with families_of_GPT_4_32K show ?thesis by simp
  next
    case 5 with families_of_GPT_4_128K assms(2) show ?thesis by simp
  next
    case 6 with families_of_GPT_4O False show ?thesis by simp
  next
    case 7 with families_of_GPT_4_1 show ?thesis by simp
  next
    case 8 with families_of_O show ?thesis by simp
  qed
  with False show ?thesis by simp
qed

text \<open>
  The lookups take the first branch that matches; but for \<open>gpt-4-turbo-preview\<close> every
  family an identifier is in has the limits the lookups return.
\<close>

lemma default_max_tokens_family:
  "\<forall>m \<in> set GPT_ALL_MODELS. m \<noteq> ''gpt-4-turbo-preview'' \<longrightarrow>
     (\<forall>family \<in> set (families_of m).
        default_max_tokens m = Some (family_default_max_tokens family m))"
  by (simp add: GPT_ALL_MODELS_def families_of_def MODEL_FAMILIES_def family_defs
                default_max_tokens_def family_default_max_tokens_def)

lemma max_model_tokens_family:
  "\<forall>m \<in> set GPT_ALL_MODELS. m \<noteq> ''gpt-4-turbo-preview'' \<longrightarrow>
     (\<forall>family \<in> set (families_of m).
        max_model_tokens (cfg \<lparr> model := m \<rparr>) = Inr (family_max_model_tokens family m))"
  by (simp add: GPT_ALL_MODELS_def families_of_def MODEL_FAMILIES_def family_defs
                max_model_tokens_def family_max_model_tokens_def)

text \<open>
  Claim C8, as the code has it. A model identifier of \<open>GPT_ALL_MODELS\<close> other than
  \<open>gpt-4-turbo-preview\<close> (of which nothing is said here) belongs to exactly one family,
  but for \<open>gpt-4o\<close>, which belongs to the vision family and the 4o family; whichever
  family it belongs to, both lookups return that family's limits; and the token count
  does not fail with the unsupported-model error. An identifier of no family makes the
  context-window lookup and the token count fail with their not-implemented errors.
  (What \<open>default_max_tokens\<close> does for such an identifier is left out here.)
\<close>

theorem model_family_lookup:
  "(model cfg \<in> set GPT_ALL_MODELS \<longrightarrow> model cfg \<noteq> ''gpt-4-turbo-preview'' \<longrightarrow>
      (model cfg \<noteq> ''gpt-4o'' \<longrightarrow> length (families_of (model cfg)) = 1)
      \<and> (model cfg = ''gpt-4o'' \<longrightarrow>
           families_of (model cfg) = [GPT_4_VISION_MODELS, GPT_4O_MODELS])
      \<and> (\<forall>family \<in> set (families_of (model cfg)).
           default_max_tokens (model cfg) =
             Some (family_default_max_tokens family (model cfg))
           \<and> max_model_tokens cfg = Inr (family_max_model_tokens family (model cfg)))
      \<and> count_tokens cfg enc dims ms \<noteq> Inl UnsupportedModel)
   \<and> (model cfg \<notin> set GPT_ALL_MODELS \<longrightarrow>
        max_model_tokens cfg = Inl MaxTokensNotImplemented
        \<and> count_tokens cfg enc dims ms = Inl UnsupportedModel)"
proof (intro conjI impI)
  assume known: "model cfg \<in> set GPT_ALL_MODELS"
    and other: "model cfg \<noteq> ''gpt-4-turbo-preview''"
  from families_of_known[OF known other]
  show "model cfg \<noteq> ''gpt-4o'' \<Longrightarrow> length (families_of (model cfg)) = 1"
    and "model cfg = ''gpt-4o'' \<Longrightarrow>
           families_of (model cfg) = [GPT_4_VISION_MODELS, GPT_4O_MODELS]"
    by simp_all
  have same: "cfg \<lparr> model := model cfg \<rparr> = cfg" by simp
  from default_max_tokens_family max_model_tokens_family[of cfg] known other same
  show "\<forall>family \<in> set (families_of (model cfg)).
          default_max_tokens (model cfg) = Some (family_default_max_tokens family (model cfg))
          \<and> max_model_tokens cfg = Inr (family_max_model_tokens family (model cfg))"
    by metis
  from known show "count_tokens cfg enc dims ms \<noteq> Inl UnsupportedModel"
    by (rule count_tokens_not_unsupported)
next
  assume unknown: "model cfg \<notin> set GPT_ALL_MODELS"
  then show "max_model_tokens cfg = Inl MaxTokensNotImplemented"
    by (rule max_model_tokens_undefined)
  from unknown show "count_tokens cfg enc dims ms = Inl UnsupportedModel"
    by (simp add: count_tokens_def)
qed

theorem model_family_lookup_witness:
  "families_of ''gpt-4o'' = [GPT_4_VISION_MODELS, GPT_4O_MODELS]
   \<and> default_max_tokens ''gpt-4o'' = Some 4096
   \<and> max_model_tokens sample_config = Inr 126976
   \<and> count_tokens sample_config unit_encoding (\<lambda>u. (0, 0)) [] \<noteq> Inl UnsupportedModel
   \<and> length (families_of ''gpt-4.1-mini'') = 1
   \<and> default_max_tokens ''gpt-4.1-mini'' = Some 30000
   \<and> max_model_tokens (sample_config \<lparr> model := ''gpt-4.1-mini'' \<rparr>) = Inr 262144
   \<and> max_model_tokens (sample_config \<lparr> model := ''gpt-5'' \<rparr>) = Inl MaxTokensNotImplemented
   \<and> count_tokens (sample_config \<lparr> model := ''gpt-5'' \<rparr>) unit_encoding (\<lambda>u. (0, 0)) [] =
       Inl UnsupportedModel"
proof -
  define mini where "mini = sample_config \<lparr> model := ''gpt-4.1-mini'' \<rparr>"
  define five where "five = sample_config \<lparr> model := ''gpt-5'' \<rparr>"
  have m4o: "model sample_config = ''gpt-4o''" by (simp add: sample_config_def)
  have mmini: "model mini = ''gpt-4.1-mini''" by (simp add: mini_def)
  have known_mini: "model mini \<in> set GPT_ALL_MODELS"
    by (simp add: mini_def GPT_ALL_MODELS_def family_defs)
  have unknown: "model five \<notin> set GPT_ALL_MODELS"
    by (simp add: five_def GPT_ALL_MODELS_def family_defs)
  have vision_limits:
    "family_default_max_tokens GPT_4_VISION_MODELS ''gpt-4o'' = 4096"
    "family_max_model_tokens GPT_4_VISION_MODELS ''gpt-4o'' = 126976"
    by (simp_all add: family_default_max_tokens_def family_max_model_tokens_def family_defs)
  have mini_limits:
    "family_default_max_tokens GPT_4_1_MODELS ''gpt-4.1-mini'' = 30000"
    "family_max_model_tokens GPT_4_1_MODELS ''gpt-4.1-mini'' = 262144"
    by (simp_all add: family_default_max_tokens_def family_max_model_tokens_def family_defs)
  have mini_family: "families_of ''gpt-4.1-mini'' = [GPT_4_1_MODELS]"
    using families_of_GPT_4_1 by (simp add: GPT_4_1_MODELS_def)
  note a = model_family_lookup
             [where cfg = sample_config and enc = unit_encoding and dims = "\<lambda>u. (0, 0)"
                and ms = "[]"]
  note b = model_family_lookup
             [where cfg = mini and enc = unit_encoding and dims = "\<lambda>u. (0, 0)" and ms = "[]"]
  note c = model_family_lookup
             [where cfg = five and enc = unit_encoding and dims = "\<lambda>u. (0, 0)" and ms = "[]"]
  from a sample_model_supported m4o vision_limits
  have one: "families_of ''gpt-4o'' = [GPT_4_VISION_MODELS, GPT_4O_MODELS]
             \<and> default_max_tokens ''gpt-4o'' = Some 4096
             \<and> max_model_tokens sample_config = Inr 126976
             \<and> count_tokens sample_config unit_encoding (\<lambda>u. (0, 0)) [] \<noteq> Inl UnsupportedModel"
    by auto
  from b known_mini mmini mini_limits mini_family
  have two: "length (families_of ''gpt-4.1-mini'') = 1
             \<and> default_max_tokens ''gpt-4.1-mini'' = Some 30000
             \<and> max_model_tokens mini = Inr 262144"
    by auto
  from c unknown
  have three: "max_model_tokens five = Inl MaxTokensNotImplemented
               \<and> count_tokens five unit_encoding (\<lambda>u. (0, 0)) [] = Inl UnsupportedModel"
    by blast
  from one two three show ?thesis
    unfolding mini_def five_def by blast
qed

text \<open>
  Two identifiers belong to two families each, and the default lookup returns
  \<open>None\<close> for an identifier of no family instead of failing.
\<close>

theorem model_family_counterexample:
  "''gpt-4o'' \<in> set GPT_ALL_MODELS
   \<and> families_of ''gpt-4o'' = [GPT_4_VISION_MODELS, GPT_4O_MODELS]
   \<and> ''gpt-4-turbo-preview'' \<in> set GPT_ALL_MODELS
   \<and> families_of ''gpt-4-turbo-preview'' = [GPT_4_MODELS, GPT_4_128K_MODELS]
   \<and> GPT_4_VISION_MODELS \<noteq> GPT_4O_MODELS
   \<and> GPT_4_MODELS \<noteq> GPT_4_128K_MODELS
   \<and> ''gpt-5'' \<notin> set GPT_ALL_MODELS
   \<and> default_max_tokens ''gpt-5'' = None"
  by (simp add: families_of_def MODEL_FAMILIES_def GPT_ALL_MODELS_def family_defs
                default_max_tokens_def)

subsection \<open>History store\<close>

text \<open>
  Claim C2. After a reset the history of the conversation is one message: its role is
  \<open>assistant\<close> for a model of \<open>O_MODELS\<close> and \<open>system\<close> otherwise, its content the
  override when one is given (any content but the empty string, the default argument) and
  the configured assistant prompt otherwise; the vision flag of the conversation is
  \<open>False\<close>.
\<close>

theorem reset_chat_history_priming:
  "conversations (reset_chat_history cfg st cid c) cid =
     Some [\<lparr> role = (if model cfg \<in> set O_MODELS then ''assistant'' else ''system''),
             name = None,
             content = (if c = Str '''' then Str (assistant_prompt cfg) else c) \<rparr>]
   \<and> conversations_vision (reset_chat_history cfg st cid c) cid = Some False"
  by (simp add: reset_chat_history_def priming_message_def)

text \<open>
  Claim C10. For a conversation id that is not in the store, the statistics call resets
  the conversation first: the store afterwards is the reset store, with the priming
  message as the whole history and the vision flag \<open>False\<close>; the result is never a
  missing-key error, and it is the count 1 with the estimate of the priming message alone
  (the estimate's own error when the model is not supported or the tokenizer refuses the
  priming text).
\<close>

theorem get_conversation_stats_new_chat:
  assumes "cid \<notin> dom (conversations st)"
  shows "get_conversation_stats cfg enc dims st cid =
           (reset_chat_history cfg st cid (Str ''''),
            case count_tokens cfg enc dims [priming_message cfg (Str '''')] of
              Inl e \<Rightarrow> Inl e
            | Inr t \<Rightarrow> Inr (1, t))
         \<and> snd (get_conversation_stats cfg enc dims st cid) \<noteq> Inl KeyError
         \<and> conversations (fst (get_conversation_stats cfg enc dims st cid)) cid =
             Some [priming_message cfg (Str '''')]
         \<and> conversations_vision (fst (get_conversation_stats cfg enc dims st cid)) cid =
             Some False"
proof -
  have eq: "get_conversation_stats cfg enc dims st cid =
              (reset_chat_history cfg st cid (Str ''''),
               case count_tokens cfg enc dims [priming_message cfg (Str '''')] of
                 Inl e \<Rightarrow> Inl e
               | Inr t \<Rightarrow> Inr (1, t))"
    using assms
    by (simp add: get_conversation_stats_def reset_chat_history_def Let_def
             split: sum.splits)
  have no_key: "count_tokens cfg enc dims [priming_message cfg (Str '''')] \<noteq> Inl KeyError"
    by (auto simp: count_tokens_def split: sum.splits dest: count_message_errors)
  from eq no_key show ?thesis
    by (auto simp: reset_chat_history_def split: sum.splits)
qed

theorem get_conversation_stats_new_chat_witness:
  "get_conversation_stats sample_config unit_encoding (\<lambda>u. (0, 0)) empty_helper 42 =
     (reset_chat_history sample_config empty_helper 42 (Str ''''), Inr (1, 8))
   \<and> conversations_vision
       (fst (get_conversation_stats sample_config unit_encoding (\<lambda>u. (0, 0)) empty_helper 42))
       42 = Some False"
proof -
  have new: "42 \<notin> dom (conversations empty_helper)"
    by (simp add: empty_helper_def)
  have prim: "priming_message sample_config (Str '''') =
                \<lparr> role = ''system'', name = None,
                  content = Str ''You are a helpful assistant.'' \<rparr>"
    by (simp add: priming_message_def sample_config_def O_MODELS_def)
  have est: "count_tokens sample_config unit_encoding (\<lambda>u. (0, 0))
               [priming_message sample_config (Str '''')] = Inr 8"
    unfolding prim
    using count_tokens_single_text
            [OF sample_model_supported unit_encoding_words(1) unit_encoding_words(9)]
    by simp
  from get_conversation_stats_new_chat[OF new, of sample_config unit_encoding "\<lambda>u. (0, 0)"] est
  show ?thesis by (simp add: reset_chat_history_def)
qed

subsection \<open>Context budgeter\<close>

lemma py_slice_from_last:
  "0 < n \<Longrightarrow> py_slice_from (- n) xs = last_n (nat n) xs"
  by (auto simp: py_slice_from_def last_n_def Let_def max_def nat_diff_distrib'
           intro!: arg_cong2[where f = drop])

lemma py_slice_from_zero: "py_slice_from 0 xs = xs"
  by (simp add: py_slice_from_def)

lemma summarise_history_result:
  "summarise_history cfg summarise st cid (m0 # h) query =
     (case summarise (butlast (m0 # h)) of
        Inl e \<Rightarrow> Inl e
      | Inr summary \<Rightarrow>
          Inr (st \<lparr> conversations := (conversations st)
                      (cid \<mapsto> [priming_message cfg (content m0),
                               \<lparr> role = ''assistant'', name = None, content = Str summary \<rparr>,
                               \<lparr> role = ''user'', name = None, content = Str query \<rparr>]),
                    conversations_vision := (conversations_vision st)(cid \<mapsto> False) \<rparr>))"
  by (simp add: summarise_history_def reset_chat_history_def add_to_history_def
           split: sum.splits)

text \<open>
  What the budget check does to a history \<open>m0 # h\<close> whose estimate is \<open>t\<close>, under a
  context window \<open>limit\<close>: nothing when it is within budget; over budget, the three
  messages after a summary, or the slice after a failed one, which for a positive
  \<open>max_history_size\<close> is the last \<open>max_history_size\<close> messages.
\<close>

lemma enforce_budget_result:
  assumes "conversations st cid = Some (m0 # h)"
      and "count_tokens cfg enc dims (m0 # h) = Inr t"
      and "max_model_tokens cfg = Inr limit"
  shows "enforce_budget cfg enc dims summarise st cid query =
           Inr (if int t + max_tokens cfg > limit
                   \<or> int (length (m0 # h)) > max_history_size cfg
                then (case summarise (butlast (m0 # h)) of
                        Inr summary \<Rightarrow>
                          st \<lparr> conversations := (conversations st)
                                 (cid \<mapsto> [priming_message cfg (content m0),
                                          \<lparr> role = ''assistant'', name = None,
                                            content = Str summary \<rparr>,
                                          \<lparr> role = ''user'', name = None,
                                            content = Str query \<rparr>]),
                               conversations_vision :=
                                 (conversations_vision st)(cid \<mapsto> False) \<rparr>
                      | Inl e \<Rightarrow>
                          st \<lparr> conversations := (conversations st)
                                 (cid \<mapsto> py_slice_from (- max_history_size cfg) (m0 # h)) \<rparr>)
                else st)"
  using assms
  by (simp add: enforce_budget_def summarise_history_result Let_def split: sum.splits)

lemma enforce_budget_truncates:
  assumes "conversations st cid = Some (m0 # h)"
      and "count_tokens cfg enc dims (m0 # h) = Inr t"
      and "max_model_tokens cfg = Inr limit"
      and "int t + max_tokens cfg > limit \<or> int (length (m0 # h)) > max_history_size cfg"
      and "summarise (butlast (m0 # h)) = Inl e"
      and "0 < max_history_size cfg"
  shows "enforce_budget cfg enc dims summarise st cid query =
           Inr (st \<lparr> conversations := (conversations st)
                       (cid \<mapsto> last_n (nat (max_history_size cfg)) (m0 # h)) \<rparr>)"
  using assms
  by (simp add: enforce_budget_result py_slice_from_last del: butlast.simps)

text \<open>The request on a chat that exists and is not too old: the user turn, then the check.\<close>

lemma prepare_history_known_chat:
  assumes "conversations st cid = Some h"
      and "\<not> max_age_reached cfg st now cid"
  shows "prepare_history cfg enc dims summarise now st cid query =
           enforce_budget cfg enc dims summarise
             (st \<lparr> last_updated := (last_updated st)(cid \<mapsto> now),
                   conversations := (conversations st)
                      (cid \<mapsto> h @ [\<lparr> role = ''user'', name = None, content = Str query \<rparr>]) \<rparr>)
             cid query"
  using assms
  by (simp add: prepare_history_def add_to_history_def Let_def domI)

text \<open>
  Claim C1 at \<open>max_history_size = 0\<close>. The chat holds its priming message; the request
  appends the user turn, and the history of two messages is over budget (2 exceeds 0); the
  summary fails; the slice \<^verbatim>\<open>[-0:]\<close> is the whole list, so the history keeps both
  messages, where the last 0 messages are none.
\<close>

theorem prepare_history_zero_size_keeps_history:
  "\<exists>st'. prepare_history (sample_config \<lparr> max_history_size := 0 \<rparr>) unit_encoding
            (\<lambda>u. (0, 0)) (\<lambda>h. Inl UpstreamError) 1000
            (reset_chat_history sample_config empty_helper 7 (Str ''Be brief.'')) 7 ''Hi'' =
            Inr st'
        \<and> conversations st' 7 =
            Some [\<lparr> role = ''system'', name = None, content = Str ''Be brief.'' \<rparr>,
                  \<lparr> role = ''user'', name = None, content = Str ''Hi'' \<rparr>]
        \<and> last_n (nat (max_history_size (sample_config \<lparr> max_history_size := 0 \<rparr>)))
            [\<lparr> role = ''system'', name = None, content = Str ''Be brief.'' \<rparr>,
             \<lparr> role = ''user'', name = None, content = Str ''Hi'' \<rparr>] = []"
proof -
  define cfg where "cfg = sample_config \<lparr> max_history_size := 0 \<rparr>"
  define st where "st = reset_chat_history sample_config empty_helper 7 (Str ''Be brief.'')"
  have h: "conversations st 7 =
             Some [\<lparr> role = ''system'', name = None, content = Str ''Be brief.'' \<rparr>]"
    by (simp add: st_def reset_chat_history_def priming_message_def sample_config_def
                  O_MODELS_def)
  have young: "\<not> max_age_reached cfg st 1000 7"
    by (simp add: max_age_reached_def st_def reset_chat_history_def empty_helper_def)
  have supported: "model cfg \<in> set GPT_ALL_MODELS"
    using sample_model_supported by (simp add: cfg_def)
  have limit: "max_model_tokens cfg = Inr 126976"
    by (simp add: cfg_def max_model_tokens_def sample_config_def family_defs)
  have tokens: "count_tokens cfg unit_encoding (\<lambda>u. (0, 0))
                  [\<lparr> role = ''system'', name = None, content = Str ''Be brief.'' \<rparr>,
                   \<lparr> role = ''user'', name = None, content = Str ''Hi'' \<rparr>] = Inr 13"
    using supported
    by (simp add: count_tokens_def count_message_def encoded_length_def
                  unit_encoding_words)
  have size0: "max_history_size cfg = 0" by (simp add: cfg_def)
  have "prepare_history cfg unit_encoding (\<lambda>u. (0, 0)) (\<lambda>h. Inl UpstreamError) 1000 st 7
          ''Hi'' =
        Inr (st \<lparr> last_updated := (last_updated st)(7 \<mapsto> 1000),
                  conversations := (conversations st)
                    (7 \<mapsto> [\<lparr> role = ''system'', name = None, content = Str ''Be brief.'' \<rparr>,
                           \<lparr> role = ''user'', name = None, content = Str ''Hi'' \<rparr>]) \<rparr>)"
    by (simp add: prepare_history_known_chat[OF h young]
                  enforce_budget_result[OF _ tokens limit] size0 py_slice_from_zero)
  then show ?thesis
    by (simp add: cfg_def st_def last_n_def)
qed

text \<open>The history that is left has two messages.\<close>

theorem prepare_history_zero_size_keeps_history_witness:
  "\<exists>st'. prepare_history (sample_config \<lparr> max_history_size := 0 \<rparr>) unit_encoding
            (\<lambda>u. (0, 0)) (\<lambda>h. Inl UpstreamError) 1000
            (reset_chat_history sample_config empty_helper 7 (Str ''Be brief.'')) 7 ''Hi'' =
            Inr st'
        \<and> map_option length (conversations st' 7) = Some 2"
proof -
  from prepare_history_zero_size_keeps_history obtain st' where
    "prepare_history (sample_config \<lparr> max_history_size := 0 \<rparr>) unit_encoding
       (\<lambda>u. (0, 0)) (\<lambda>h. Inl UpstreamError) 1000
       (reset_chat_history sample_config empty_helper 7 (Str ''Be brief.'')) 7 ''Hi'' = Inr st'"
    and "conversations st' 7 =
           Some [\<lparr> role = ''system'', name = None, content = Str ''Be brief.'' \<rparr>,
                 \<lparr> role = ''user'', name = None, content = Str ''Hi'' \<rparr>]"
    by blast
  then show ?thesis by simp
qed

subsection \<open>Structured wire shape\<close>

lemma block_type_text_tag: "block_type r = text_tag r"
  by (simp add: block_type_def text_tag_def)

lemma to_responses_message_structured:
  "to_responses_message (role m) (content m) =
     (if role m = ''function'' then None else Some (structured_message m))"
proof -
  have "map (convert_part (role m)) bs =
          map (\<lambda>b. case b of
                      TextBlock t \<Rightarrow> TextPart (text_tag (role m)) t
                    | ImageBlock url d \<Rightarrow> ImagePart ''input_image'' (url, d)) bs" for bs
    by (rule map_cong) (auto simp: block_type_text_tag split: block.splits)
  then show ?thesis
    by (simp add: to_responses_message_def structured_message_def block_type_text_tag
             split: content.splits)
qed

lemma responses_stream_input_filter:
  "responses_stream_input ms =
     map structured_message (filter (\<lambda>m. role m \<noteq> ''function'') ms)"
  by (induction ms) (simp_all add: to_responses_message_structured)

lemma responses_input_filter:
  "responses_input ms =
     map structured_message
       (filter (\<lambda>m. role m \<noteq> ''function'' \<and> role m \<noteq> ''assistant'') ms)"
  by (induction ms) (simp_all add: to_responses_message_structured)

text \<open>
  Claim C3, as the code has it. The converter drops a function-result message and turns
  any other message into its structured form (text tagged \<open>input_text\<close> for the roles
  user, system and developer and \<open>output_text\<close> for assistant, images as \<open>input_image\<close>
  with their payload). The streaming request renders every message of the history but
  the function results this way; the non-streaming request leaves the assistant turns
  out as well.
\<close>

theorem responses_rendering:
  "to_responses_message ''function'' c = None
   \<and> responses_stream_input ms =
       map structured_message (filter (\<lambda>m. role m \<noteq> ''function'') ms)
   \<and> responses_input ms =
       map structured_message
         (filter (\<lambda>m. role m \<noteq> ''function'' \<and> role m \<noteq> ''assistant'') ms)
   \<and> structured_message \<lparr> role = ''user'', name = n, content = Str s \<rparr> =
       \<lparr> rrole = ''user'', rcontent = [TextPart ''input_text'' s] \<rparr>
   \<and> structured_message \<lparr> role = ''assistant'', name = n, content = Str s \<rparr> =
       \<lparr> rrole = ''assistant'', rcontent = [TextPart ''output_text'' s] \<rparr>
   \<and> structured_message
       \<lparr> role = ''user'', name = n, content = Parts [TextBlock t, ImageBlock url d] \<rparr> =
       \<lparr> rrole = ''user'',
         rcontent = [TextPart ''input_text'' t, ImagePart ''input_image'' (url, d)] \<rparr>"
  by (simp add: responses_stream_input_filter responses_input_filter
                to_responses_message_def structured_message_def text_tag_def)

theorem responses_rendering_witness:
  "responses_stream_input
     [\<lparr> role = ''system'', name = None, content = Str ''Be brief.'' \<rparr>,
      \<lparr> role = ''user'', name = None, content = Str ''Hi'' \<rparr>,
      \<lparr> role = ''function'', name = Some ''weather'', content = Str ''sunny'' \<rparr>,
      \<lparr> role = ''assistant'', name = None, content = Str ''Hello'' \<rparr>] =
     [\<lparr> rrole = ''system'', rcontent = [TextPart ''input_text'' ''Be brief.''] \<rparr>,
      \<lparr> rrole = ''user'', rcontent = [TextPart ''input_text'' ''Hi''] \<rparr>,
      \<lparr> rrole = ''assistant'', rcontent = [TextPart ''output_text'' ''Hello''] \<rparr>]
   \<and> responses_input
     [\<lparr> role = ''system'', name = None, content = Str ''Be brief.'' \<rparr>,
      \<lparr> role = ''user'', name = None, content = Str ''Hi'' \<rparr>,
      \<lparr> role = ''function'', name = Some ''weather'', content = Str ''sunny'' \<rparr>,
      \<lparr> role = ''assistant'', name = None, content = Str ''Hello'' \<rparr>] =
     [\<lparr> rrole = ''system'', rcontent = [TextPart ''input_text'' ''Be brief.''] \<rparr>,
      \<lparr> rrole = ''user'', rcontent = [TextPart ''input_text'' ''Hi''] \<rparr>]"
  using responses_rendering
          [of "Str []"
              "[\<lparr> role = ''system'', name = None, content = Str ''Be brief.'' \<rparr>,
                \<lparr> role = ''user'', name = None, content = Str ''Hi'' \<rparr>,
                \<lparr> role = ''function'', name = Some ''weather'', content = Str ''sunny'' \<rparr>,
                \<lparr> role = ''assistant'', name = None, content = Str ''Hello'' \<rparr>]"]
  by (simp add: structured_message_def text_tag_def)

text \<open>
  In the non-streaming request an assistant turn, which is no function result, is left
  out of the input.
\<close>

theorem responses_input_assistant_counterexample:
  "responses_input
     [\<lparr> role = ''user'', name = None, content = Str ''Hi'' \<rparr>,
      \<lparr> role = ''assistant'', name = None, content = Str ''Hello'' \<rparr>] =
     [\<lparr> rrole = ''user'', rcontent = [TextPart ''input_text'' ''Hi''] \<rparr>]"
  by (simp add: to_responses_message_def block_type_def)

subsection \<open>Tool-call resolver, legacy shape\<close>

text \<open>The recursive function, one round at a time.\<close>

lemma handle_function_call_step:
  "handle_function_call cfg create call_function is_direct_result cid response stream ntimes
       plugins_used w =
     (case resolver_step cfg create call_function is_direct_result cid response stream ntimes
             plugins_used w of
        Done r \<Rightarrow> Some r
      | Continue response' plugins w' \<Rightarrow>
          handle_function_call cfg create call_function is_direct_result cid response' stream
            (ntimes + 1) plugins w')"
  by (subst handle_function_call.simps)
     (simp add: resolver_step_def Let_def
           split: list.splits option.splits sum.splits prod.splits scan.splits)

lemma requests_function_call:
  "requests_function stream response \<Longrightarrow>
     \<exists>function_name arguments.
       requested_call stream response = Inr (Call function_name arguments)"
  by (auto simp: requests_function_def split: sum.splits scan.splits)

lemma resolver_step_no_request:
  "\<not> requests_function stream response \<Longrightarrow>
     \<exists>res. resolver_step cfg create call_function is_direct_result cid response stream ntimes
             plugins_used w = Done (w, res)"
  by (auto simp: resolver_step_def requests_function_def split: sum.splits scan.splits)

lemma resolver_step_done:
  "resolver_step cfg create call_function is_direct_result cid response stream ntimes
     plugins_used w = Done (w', res) \<Longrightarrow>
   length (invoked w') \<le> length (invoked w) + 1
   \<and> (resubmitted w' = resubmitted w
      \<or> resubmitted w' = resubmitted w @ [function_call_mode cfg ntimes])"
  by (auto simp: resolver_step_def Let_def
           split: list.splits option.splits sum.splits prod.splits if_splits scan.splits)

lemma resolver_step_continue:
  "resolver_step cfg create call_function is_direct_result cid response stream ntimes
     plugins_used w = Continue response' plugins w' \<Longrightarrow>
   length (invoked w') = length (invoked w) + 1
   \<and> resubmitted w' = resubmitted w @ [function_call_mode cfg ntimes]
   \<and> (\<exists>h. create h (function_call_mode cfg ntimes) stream = Inr response')"
  by (auto simp: resolver_step_def Let_def
           split: list.splits option.splits sum.splits prod.splits if_splits scan.splits)

text \<open>
  A round that goes on: the response asks for a function, the plugin answers with a
  result that is not direct, the function's turn is appended to the history, and the
  history is resubmitted with the mode the counter gives. The next round has the counter
  one higher.
\<close>

lemma resolver_step_round:
  assumes "requested_call stream response = Inr (Call function_name arguments)"
      and "call_function function_name arguments = Inr function_response"
      and "\<not> is_direct_result function_response"
      and "conversations (helper_state w) cid = Some h"
      and "mode = function_call_mode cfg ntimes"
      and "create (h @ [\<lparr> role = ''function'', name = Some function_name,
                           content = Str function_response \<rparr>]) mode stream = Inr response'"
  shows "resolver_step cfg create call_function is_direct_result cid response stream ntimes
           plugins_used w =
         Continue response'
           (if function_name \<in> set plugins_used then plugins_used
            else plugins_used @ [function_name])
           (w \<lparr> helper_state := (helper_state w)
                   \<lparr> conversations := (conversations (helper_state w))
                       (cid \<mapsto> h @ [\<lparr> role = ''function'', name = Some function_name,
                                        content = Str function_response \<rparr>]) \<rparr>,
                 invoked := invoked w @ [(function_name, arguments)],
                 resubmitted := resubmitted w @ [mode] \<rparr>)"
  using assms
  by (simp add: resolver_step_def add_function_call_to_history_def)

lemma handle_function_call_round:
  assumes "requested_call stream response = Inr (Call function_name arguments)"
      and "call_function function_name arguments = Inr function_response"
      and "\<not> is_direct_result function_response"
      and "conversations (helper_state w) cid = Some h"
      and "mode = function_call_mode cfg ntimes"
      and "create (h @ [\<lparr> role = ''function'', name = Some function_name,
                           content = Str function_response \<rparr>]) mode stream = Inr response'"
  shows "handle_function_call cfg create call_function is_direct_result cid response stream
           ntimes plugins_used w =
         handle_function_call cfg create call_function is_direct_result cid response' stream
           (ntimes + 1)
           (if function_name \<in> set plugins_used then plugins_used
            else plugins_used @ [function_name])
           (w \<lparr> helper_state := (helper_state w)
                   \<lparr> conversations := (conversations (helper_state w))
                       (cid \<mapsto> h @ [\<lparr> role = ''function'', name = Some function_name,
                                        content = Str function_response \<rparr>]) \<rparr>,
                 invoked := invoked w @ [(function_name, arguments)],
                 resubmitted := resubmitted w @ [mode] \<rparr>)"
  using assms
  by (subst handle_function_call_step)
     (simp add: resolver_step_def add_function_call_to_history_def)

text \<open>
  When the upstream model never answers a request that disables function calling with a
  function call, the chain ends, after at most \<open>m + 1\<close> rounds, where \<open>m\<close> is what is
  left of the ceiling.
\<close>

lemma handle_function_call_bounded:
  assumes honours: "\<And>h r. create h ''none'' stream = Inr r \<Longrightarrow> \<not> requests_function stream r"
  shows "nat (functions_max_consecutive_calls cfg - int ntimes) = m \<Longrightarrow>
     \<exists>w' res k.
       handle_function_call cfg create call_function is_direct_result cid response stream
         ntimes plugins_used w = Some (w', res)
       \<and> k \<le> m + 1
       \<and> resubmitted w' = resubmitted w @ map (function_call_mode cfg) [ntimes..<ntimes + k]
       \<and> length (invoked w') \<le> length (invoked w) + m + 1"
proof (induction m arbitrary: ntimes response plugins_used w)
  case 0
  then have mode: "function_call_mode cfg ntimes = ''none''"
    by (simp add: function_call_mode_def)
  show ?case
  proof (cases "resolver_step cfg create call_function is_direct_result cid response stream
                  ntimes plugins_used w")
    case (Done r)
    obtain w' res where r: "r = (w', res)" by (cases r)
    from resolver_step_done[OF Done[unfolded r]]
    have len: "length (invoked w') \<le> length (invoked w) + 1"
      and sub: "resubmitted w' = resubmitted w
                \<or> resubmitted w' = resubmitted w @ [function_call_mode cfg ntimes]"
      by simp_all
    from sub have "\<exists>k\<le>1. resubmitted w' =
                     resubmitted w @ map (function_call_mode cfg) [ntimes..<ntimes + k]"
    proof
      assume "resubmitted w' = resubmitted w"
      then show ?thesis by (intro exI[of _ 0]) simp
    next
      assume "resubmitted w' = resubmitted w @ [function_call_mode cfg ntimes]"
      then show ?thesis by (intro exI[of _ 1]) simp
    qed
    with Done r len show ?thesis
      by (auto simp: handle_function_call_step)
  next
    case (Continue response' plugins w2)
    from resolver_step_continue[OF Continue] mode obtain h where
      len: "length (invoked w2) = length (invoked w) + 1"
      and sub: "resubmitted w2 = resubmitted w @ [function_call_mode cfg ntimes]"
      and answer: "create h ''none'' stream = Inr response'"
      by auto
    from honours[OF answer] have "\<not> requests_function stream response'" .
    from resolver_step_no_request[OF this] obtain res where
      "resolver_step cfg create call_function is_direct_result cid response' stream
         (ntimes + 1) plugins w2 = Done (w2, res)"
      by blast
    then have "handle_function_call cfg create call_function is_direct_result cid response'
                 stream (ntimes + 1) plugins w2 = Some (w2, res)"
      by (simp add: handle_function_call_step[where response = response'])
    with Continue have "handle_function_call cfg create call_function is_direct_result cid
                          response stream ntimes plugins_used w = Some (w2, res)"
      by (simp add: handle_function_call_step[where response = response])
    moreover from sub have "resubmitted w2 =
                     resubmitted w @ map (function_call_mode cfg) [ntimes..<ntimes + 1]"
      by simp
    ultimately show ?thesis using len
      by (intro exI[of _ w2] exI[of _ res] exI[of _ 1]) simp
  qed
next
  case (Suc m)
  show ?case
  proof (cases "resolver_step cfg create call_function is_direct_result cid response stream
                  ntimes plugins_used w")
    case (Done r)
    obtain w' res where r: "r = (w', res)" by (cases r)
    from resolver_step_done[OF Done[unfolded r]]
    have len: "length (invoked w') \<le> length (invoked w) + 1"
      and sub: "resubmitted w' = resubmitted w
                \<or> resubmitted w' = resubmitted w @ [function_call_mode cfg ntimes]"
      by simp_all
    from sub have "\<exists>k\<le>1. resubmitted w' =
                     resubmitted w @ map (function_call_mode cfg) [ntimes..<ntimes + k]"
    proof
      assume "resubmitted w' = resubmitted w"
      then show ?thesis by (intro exI[of _ 0]) simp
    next
      assume "resubmitted w' = resubmitted w @ [function_call_mode cfg ntimes]"
      then show ?thesis by (intro exI[of _ 1]) simp
    qed
    then obtain k where "k \<le> 1"
      and "resubmitted w' = resubmitted w @ map (function_call_mode cfg) [ntimes..<ntimes + k]"
      by blast
    with Done r len show ?thesis
      by (intro exI[of _ w'] exI[of _ res] exI[of _ k])
         (simp add: handle_function_call_step[where response = response])
  next
    case (Continue response' plugins w2)
    from resolver_step_continue[OF Continue]
    have len: "length (invoked w2) = length (invoked w) + 1"
      and sub: "resubmitted w2 = resubmitted w @ [function_call_mode cfg ntimes]"
      by simp_all
    from Suc.prems have "nat (functions_max_consecutive_calls cfg - int (ntimes + 1)) = m"
      by simp
    from Suc.IH[OF this, of response' plugins w2] obtain w' res k where
      run: "handle_function_call cfg create call_function is_direct_result cid response'
              stream (ntimes + 1) plugins w2 = Some (w', res)"
      and k: "k \<le> m + 1"
      and sub': "resubmitted w' =
                   resubmitted w2 @ map (function_call_mode cfg) [ntimes + 1..<ntimes + 1 + k]"
      and len': "length (invoked w') \<le> length (invoked w2) + m + 1"
      by blast
    have upt: "[ntimes..<ntimes + (k + 1)] = ntimes # [ntimes + 1..<ntimes + 1 + k]"
      by (simp add: upt_conv_Cons)
    from run Continue have "handle_function_call cfg create call_function is_direct_result cid
                              response stream ntimes plugins_used w = Some (w', res)"
      by (simp add: handle_function_call_step[where response = response])
    moreover from sub sub' upt
    have "resubmitted w' =
            resubmitted w @ map (function_call_mode cfg) [ntimes..<ntimes + (k + 1)]"
      by simp
    ultimately show ?thesis using k len len'
      by (intro exI[of _ w'] exI[of _ res] exI[of _ "k + 1"]) simp
  qed
qed

text \<open>
  The bound is reached. Against an upstream that asks for a function whenever function
  calling is not disabled, and with plugins whose results are never direct, a chain that
  starts with a request for a function makes one plugin call and one resubmission in
  every round: \<open>auto\<close> for each count below the ceiling, then \<open>none\<close> once, and that
  answer ends the chain.
\<close>

lemma handle_function_call_exact:
  assumes eager: "\<And>h mode. \<exists>r. create h mode stream = Inr r
                     \<and> (requests_function stream r \<longleftrightarrow> mode \<noteq> ''none'')"
      and plugin: "\<And>fn args. \<exists>r. call_function fn args = Inr r \<and> \<not> is_direct_result r"
  shows "nat (functions_max_consecutive_calls cfg - int ntimes) = m \<Longrightarrow>
         requests_function stream response \<Longrightarrow>
         cid \<in> dom (conversations (helper_state w)) \<Longrightarrow>
         \<exists>w' res.
           handle_function_call cfg create call_function is_direct_result cid response stream
             ntimes plugins_used w = Some (w', res)
           \<and> resubmitted w' = resubmitted w @ replicate m ''auto'' @ [''none'']
           \<and> length (invoked w') = length (invoked w) + m + 1"
proof (induction m arbitrary: ntimes response plugins_used w)
  case 0
  from requests_function_call[OF "0.prems"(2)] obtain fn args where
    call: "requested_call stream response = Inr (Call fn args)"
    by blast
  from plugin[of fn args] obtain r where
    r: "call_function fn args = Inr r" and direct: "\<not> is_direct_result r"
    by blast
  from "0.prems"(3) obtain h where h: "conversations (helper_state w) cid = Some h"
    by auto
  from "0.prems"(1) have mode: "''none'' = function_call_mode cfg ntimes"
    by (simp add: function_call_mode_def)
  define h' where
    "h' = h @ [\<lparr> role = ''function'', name = Some fn, content = Str r \<rparr>]"
  from eager[of h' "''none''"] obtain response' where
    answer: "create h' ''none'' stream = Inr response'"
    and quiet: "\<not> requests_function stream response'"
    by auto
  define plugins where
    "plugins = (if fn \<in> set plugins_used then plugins_used else plugins_used @ [fn])"
  define w2 where
    "w2 = w \<lparr> helper_state := (helper_state w)
                 \<lparr> conversations := (conversations (helper_state w))(cid \<mapsto> h') \<rparr>,
               invoked := invoked w @ [(fn, args)],
               resubmitted := resubmitted w @ [''none''] \<rparr>"
  from handle_function_call_round
         [where cfg = cfg and is_direct_result = is_direct_result
            and plugins_used = plugins_used and create = create
            and call_function = call_function and stream = stream and response = response
            and function_name = fn and arguments = args and function_response = r
            and w = w and cid = cid and h = h and ntimes = ntimes and response' = response',
          OF call r direct h mode answer[unfolded h'_def]]
  have round: "handle_function_call cfg create call_function is_direct_result cid response
                 stream ntimes plugins_used w =
               handle_function_call cfg create call_function is_direct_result cid response'
                 stream (ntimes + 1) plugins w2"
    by (simp add: plugins_def w2_def h'_def)
  from resolver_step_no_request[OF quiet] obtain res where
    "resolver_step cfg create call_function is_direct_result cid response' stream
       (ntimes + 1) plugins w2 = Done (w2, res)"
    by blast
  then have "handle_function_call cfg create call_function is_direct_result cid response'
               stream (ntimes + 1) plugins w2 = Some (w2, res)"
    by (simp add: handle_function_call_step[where response = response'])
  with round have "handle_function_call cfg create call_function is_direct_result cid
                     response stream ntimes plugins_used w = Some (w2, res)"
    by simp
  moreover have "resubmitted w2 = resubmitted w @ replicate 0 ''auto'' @ [''none'']"
    and "length (invoked w2) = length (invoked w) + 0 + 1"
    by (simp_all add: w2_def)
  ultimately show ?case by blast
next
  case (Suc m)
  from requests_function_call[OF Suc.prems(2)] obtain fn args where
    call: "requested_call stream response = Inr (Call fn args)"
    by blast
  from plugin[of fn args] obtain r where
    r: "call_function fn args = Inr r" and direct: "\<not> is_direct_result r"
    by blast
  from Suc.prems(3) obtain h where h: "conversations (helper_state w) cid = Some h"
    by auto
  from Suc.prems(1) have mode: "''auto'' = function_call_mode cfg ntimes"
    by (simp add: function_call_mode_def)
  define h' where
    "h' = h @ [\<lparr> role = ''function'', name = Some fn, content = Str r \<rparr>]"
  from eager[of h' "''auto''"] obtain response' where
    answer: "create h' ''auto'' stream = Inr response'"
    and asks: "requests_function stream response'"
    by auto
  define plugins where
    "plugins = (if fn \<in> set plugins_used then plugins_used else plugins_used @ [fn])"
  define w2 where
    "w2 = w \<lparr> helper_state := (helper_state w)
                 \<lparr> conversations := (conversations (helper_state w))(cid \<mapsto> h') \<rparr>,
               invoked := invoked w @ [(fn, args)],
               resubmitted := resubmitted w @ [''auto''] \<rparr>"
  from handle_function_call_round
         [where cfg = cfg and is_direct_result = is_direct_result
            and plugins_used = plugins_used and create = create
            and call_function = call_function and stream = stream and response = response
            and function_name = fn and arguments = args and function_response = r
            and w = w and cid = cid and h = h and ntimes = ntimes and response' = response',
          OF call r direct h mode answer[unfolded h'_def]]
  have round: "handle_function_call cfg create call_function is_direct_result cid response
                 stream ntimes plugins_used w =
               handle_function_call cfg create call_function is_direct_result cid response'
                 stream (ntimes + 1) plugins w2"
    by (simp add: plugins_def w2_def h'_def)
  from Suc.prems(1) have left: "nat (functions_max_consecutive_calls cfg - int (ntimes + 1)) = m"
    by simp
  have known: "cid \<in> dom (conversations (helper_state w2))"
    by (simp add: w2_def)
  from Suc.IH[OF left asks known, of plugins] obtain w' res where
    run: "handle_function_call cfg create call_function is_direct_result cid response' stream
            (ntimes + 1) plugins w2 = Some (w', res)"
    and sub: "resubmitted w' = resubmitted w2 @ replicate m ''auto'' @ [''none'']"
    and len: "length (invoked w') = length (invoked w2) + m + 1"
    by blast
  from round run have "handle_function_call cfg create call_function is_direct_result cid
                         response stream ntimes plugins_used w = Some (w', res)"
    by simp
  moreover from sub have "resubmitted w' = resubmitted w @ replicate (Suc m) ''auto'' @ [''none'']"
    by (simp add: w2_def)
  moreover from len have "length (invoked w') = length (invoked w) + Suc m + 1"
    by (simp add: w2_def)
  ultimately show ?case by blast
qed

text \<open>
  A direct result ends the chain at once: the plugin's result is returned, the note is
  recorded as the function's turn, and no request goes to the model.
\<close>

lemma handle_function_call_direct_result:
  assumes "requested_call stream response = Inr (Call function_name arguments)"
      and "call_function function_name arguments = Inr function_response"
      and "is_direct_result function_response"
      and "conversations (helper_state w) cid = Some h"
  shows "\<exists>w' plugins.
           handle_function_call cfg create call_function is_direct_result cid response stream
             ntimes plugins_used w = Some (w', Inr (PluginResult function_response, plugins))
           \<and> resubmitted w' = resubmitted w
           \<and> invoked w' = invoked w @ [(function_name, arguments)]
           \<and> conversations (helper_state w') cid =
               Some (h @ [\<lparr> role = ''function'', name = Some function_name,
                            content = Str direct_result_note \<rparr>])"
  using assms
  by (simp add: handle_function_call_step[where response = response] resolver_step_def Let_def
                add_function_call_to_history_def)

text \<open>What the two sample upstream answers ask for, as completions and as streams.\<close>

lemma sample_requested_calls:
  "requested_call False (Completion asks_weather) = Inr (Call ''weather'' ''{}'')"
  "requested_call False (Completion plain_answer) = Inr (Plain (Completion plain_answer))"
  "requested_call True (Stream weather_stream) = Inr (Call ''weather'' ''{}'')"
  "requested_call True (Stream plain_stream) = Inr (Plain (Stream (tl plain_stream)))"
  by (simp_all add: requested_call_def scan_completion_def asks_weather_def plain_answer_def
                    weather_stream_def plain_stream_def)

lemma eager_create_requests:
  "\<exists>r. eager_create h mode stream = Inr r
        \<and> (requests_function stream r \<longleftrightarrow> mode \<noteq> ''none'')"
  by (cases stream) (simp_all add: eager_create_def requests_function_def sample_requested_calls)

subsection \<open>Tool-call resolver, structured shape\<close>

text \<open>
  The plugin calls of one round: when no call raises, every function tool of the response
  has been called, in order, with the arguments the loop passes.
\<close>

lemma run_tools_trace:
  "run_tools call_function tools tool_outputs w = (w', Inr outs) \<Longrightarrow>
     w' = w \<lparr> invoked := invoked w @ function_tools tools \<rparr>"
proof (induction tools arbitrary: tool_outputs w)
  case Nil
  then show ?case by auto
next
  case (Cons tool tools)
  show ?case
  proof (cases "if tool_type tool = ''function'' then tool_function tool else None")
    case None
    with Cons.prems have "run_tools call_function tools tool_outputs w = (w', Inr outs)"
      by simp
    from Cons.IH[OF this] None show ?thesis by simp
  next
    case (Some f)
    obtain fn_name args where f: "f = (fn_name, args)" by (cases f)
    define fn_args where
      "fn_args = (case args of None \<Rightarrow> ''{}'' | Some a \<Rightarrow> if a = [] then ''{}'' else a)"
    show ?thesis
    proof (cases "call_function fn_name fn_args")
      case (Inl e)
      with Cons.prems Some f show ?thesis
        by (auto simp: Let_def fn_args_def)
    next
      case (Inr result)
      with Cons.prems Some f
      have "run_tools call_function tools (tool_outputs @ [(tool_id tool, result)])
              (w \<lparr> invoked := invoked w @ [(fn_name, fn_args)] \<rparr>) = (w', Inr outs)"
        by (simp add: Let_def fn_args_def)
      from Cons.IH[OF this] Some f show ?thesis
        by (simp add: fn_args_def)
    qed
  qed
qed

lemma run_tools_total:
  assumes plugin: "\<And>fn args. \<exists>r. call_function fn args = Inr r"
  shows "\<exists>w' outs. run_tools call_function tools tool_outputs w = (w', Inr outs)"
proof (induction tools arbitrary: tool_outputs w)
  case Nil
  then show ?case by simp
next
  case (Cons tool tools)
  show ?case
  proof (cases "if tool_type tool = ''function'' then tool_function tool else None")
    case None
    with Cons.IH[of tool_outputs w] show ?thesis by simp
  next
    case (Some f)
    obtain fn_name args where f: "f = (fn_name, args)" by (cases f)
    define fn_args where
      "fn_args = (case args of None \<Rightarrow> ''{}'' | Some a \<Rightarrow> if a = [] then ''{}'' else a)"
    from plugin[of fn_name fn_args] obtain result where
      result: "call_function fn_name fn_args = Inr result"
      by blast
    from Cons.IH[of "tool_outputs @ [(tool_id tool, result)]"
                    "w \<lparr> invoked := invoked w @ [(fn_name, fn_args)] \<rparr>"]
         Some f result
    show ?thesis by (simp add: Let_def fn_args_def)
  qed
qed

lemma run_tools_bounds:
  "run_tools call_function tools tool_outputs w = (w', res) \<Longrightarrow>
     length (invoked w') \<le> length (invoked w) + length tools
     \<and> resubmitted w' = resubmitted w"
proof (induction tools arbitrary: tool_outputs w)
  case Nil
  then show ?case by auto
next
  case (Cons tool tools)
  show ?case
  proof (cases "if tool_type tool = ''function'' then tool_function tool else None")
    case None
    with Cons.prems have "run_tools call_function tools tool_outputs w = (w', res)" by simp
    from Cons.IH[OF this] show ?thesis by simp
  next
    case (Some f)
    obtain fn_name args where f: "f = (fn_name, args)" by (cases f)
    define fn_args where
      "fn_args = (case args of None \<Rightarrow> ''{}'' | Some a \<Rightarrow> if a = [] then ''{}'' else a)"
    show ?thesis
    proof (cases "call_function fn_name fn_args")
      case (Inl e)
      with Cons.prems Some f show ?thesis
        by (auto simp: Let_def fn_args_def)
    next
      case (Inr result)
      with Cons.prems Some f
      have "run_tools call_function tools (tool_outputs @ [(tool_id tool, result)])
              (w \<lparr> invoked := invoked w @ [(fn_name, fn_args)] \<rparr>) = (w', res)"
        by (simp add: Let_def fn_args_def)
      from Cons.IH[OF this] show ?thesis by simp
    qed
  qed
qed

declare responses_tool_loop.simps [simp del]

text \<open>The loop at the ceiling, and one round of it below the ceiling.\<close>

lemma responses_tool_loop_exit:
  "\<not> calls < max_calls \<Longrightarrow>
     responses_tool_loop max_calls submit call_function resp calls w = (w, Inr resp)"
  by (subst responses_tool_loop.simps) simp

lemma responses_tool_loop_round:
  assumes "status resp = ''requires_action''"
      and "submit_tool_outputs resp = Some tool_calls"
      and "calls < max_calls"
      and "run_tools call_function tool_calls [] w = (wt, Inr tool_outputs)"
      and "submit (response_id resp) tool_outputs = Inr resp'"
  shows "responses_tool_loop max_calls submit call_function resp calls w =
           responses_tool_loop max_calls submit call_function resp' (calls + 1)
             (wt \<lparr> resubmitted := resubmitted wt @ [''tool_outputs''] \<rparr>)"
  using assms
  by (subst responses_tool_loop.simps) simp

text \<open>
  The loop makes at most \<open>max_calls - calls\<close> submissions, and when no response carries
  more than \<open>K\<close> tool calls, at most \<open>K\<close> plugin calls before each.
\<close>

lemma responses_tool_loop_bounds:
  assumes few: "\<And>i outs r tc. submit i outs = Inr r \<Longrightarrow> submit_tool_outputs r = Some tc
                  \<Longrightarrow> length tc \<le> K"
  shows "nat (max_calls - calls) = m \<Longrightarrow>
         (\<And>tc. submit_tool_outputs resp = Some tc \<Longrightarrow> length tc \<le> K) \<Longrightarrow>
         length (resubmitted (fst (responses_tool_loop max_calls submit call_function resp
                                     calls w))) \<le> length (resubmitted w) + m
         \<and> length (invoked (fst (responses_tool_loop max_calls submit call_function resp
                                    calls w))) \<le> length (invoked w) + K * m"
proof (induction m arbitrary: resp calls w)
  case 0
  then have "\<not> calls < max_calls" by simp
  then have "responses_tool_loop max_calls submit call_function resp calls w = (w, Inr resp)"
    by (rule responses_tool_loop_exit)
  then show ?case by simp
next
  case (Suc m)
  show ?case
  proof (cases "status resp = ''requires_action'' \<and> submit_tool_outputs resp \<noteq> None
                 \<and> calls < max_calls")
    case False
    then have "responses_tool_loop max_calls submit call_function resp calls w = (w, Inr resp)"
      by (subst responses_tool_loop.simps) auto
    then show ?thesis by simp
  next
    case True
    then obtain tool_calls where tc: "submit_tool_outputs resp = Some tool_calls" by auto
    from Suc.prems(2)[OF tc] have short: "length tool_calls \<le> K" .
    obtain w1 r1 where run: "run_tools call_function tool_calls [] w = (w1, r1)"
      by (cases "run_tools call_function tool_calls [] w")
    from run_tools_bounds[OF run] short
    have inv1: "length (invoked w1) \<le> length (invoked w) + K"
      and sub1: "resubmitted w1 = resubmitted w"
      by simp_all
    show ?thesis
    proof (cases r1)
      case (Inl e)
      with True tc run
      have "responses_tool_loop max_calls submit call_function resp calls w = (w1, Inr resp)"
        by (subst responses_tool_loop.simps) simp
      with inv1 sub1 show ?thesis by simp
    next
      case (Inr tool_outputs)
      show ?thesis
      proof (cases "submit (response_id resp) tool_outputs")
        case (Inl e)
        with True tc run Inr
        have "responses_tool_loop max_calls submit call_function resp calls w =
                (w1 \<lparr> resubmitted := resubmitted w1 @ [''tool_outputs''] \<rparr>, Inl e)"
          by (subst responses_tool_loop.simps) simp
        with inv1 sub1 show ?thesis by simp
      next
        case answer: (Inr resp')
        define w2 where "w2 = w1 \<lparr> resubmitted := resubmitted w1 @ [''tool_outputs''] \<rparr>"
        from Suc.prems(1) have left: "nat (max_calls - (calls + 1)) = m" by simp
        have few': "\<And>tc. submit_tool_outputs resp' = Some tc \<Longrightarrow> length tc \<le> K"
          using few[OF answer] .
        have rest:
          "length (resubmitted (fst (responses_tool_loop max_calls submit call_function resp'
                                       (calls + 1) w2))) \<le> length (resubmitted w2) + m
           \<and> length (invoked (fst (responses_tool_loop max_calls submit call_function resp'
                                      (calls + 1) w2))) \<le> length (invoked w2) + K * m"
          using Suc.IH[where resp = resp' and calls = "calls + 1" and w = w2, OF left few'] .
        from True tc run Inr answer
        have "responses_tool_loop max_calls submit call_function resp calls w =
                responses_tool_loop max_calls submit call_function resp' (calls + 1) w2"
          by (subst responses_tool_loop.simps) (simp add: w2_def)
        with rest inv1 sub1 show ?thesis by (simp add: w2_def)
      qed
    qed
  qed
qed

text \<open>
  The bound is reached: against an upstream that requires action after every submission,
  and with plugins that never raise, the loop submits tool outputs once for each count
  below the ceiling.
\<close>

lemma responses_tool_loop_exact:
  assumes eager: "\<And>i outs. \<exists>r. submit i outs = Inr r \<and> status r = ''requires_action''
                     \<and> submit_tool_outputs r \<noteq> None"
      and plugin: "\<And>fn args. \<exists>r. call_function fn args = Inr r"
  shows "nat (max_calls - calls) = m \<Longrightarrow>
         status resp = ''requires_action'' \<Longrightarrow> submit_tool_outputs resp \<noteq> None \<Longrightarrow>
         resubmitted (fst (responses_tool_loop max_calls submit call_function resp calls w)) =
           resubmitted w @ replicate m ''tool_outputs''"
proof (induction m arbitrary: resp calls w)
  case 0
  then have "\<not> calls < max_calls" by simp
  from responses_tool_loop_exit[OF this] show ?case by simp
next
  case (Suc m)
  from Suc.prems(1) have below: "calls < max_calls" by simp
  from Suc.prems(3) obtain tool_calls where tc: "submit_tool_outputs resp = Some tool_calls"
    by auto
  from run_tools_total[where call_function = call_function, OF plugin]
  obtain w1 tool_outputs where
    run: "run_tools call_function tool_calls [] w = (w1, Inr tool_outputs)"
    by blast
  from run_tools_bounds[OF run] have sub1: "resubmitted w1 = resubmitted w" by simp
  from eager[of "response_id resp" tool_outputs] obtain resp' where
    answer: "submit (response_id resp) tool_outputs = Inr resp'"
    and again: "status resp' = ''requires_action''" "submit_tool_outputs resp' \<noteq> None"
    by blast
  define w2 where "w2 = w1 \<lparr> resubmitted := resubmitted w1 @ [''tool_outputs''] \<rparr>"
  from Suc.prems(1) have left: "nat (max_calls - (calls + 1)) = m" by simp
  from Suc.IH[where resp = resp' and calls = "calls + 1" and w = w2, OF left again]
  have rest: "resubmitted (fst (responses_tool_loop max_calls submit call_function resp'
                                  (calls + 1) w2)) =
              resubmitted w2 @ replicate m ''tool_outputs''" .
  from responses_tool_loop_round
         [where call_function = call_function and submit = submit and resp = resp
            and tool_calls = tool_calls and calls = calls and max_calls = max_calls
            and w = w and wt = w1 and tool_outputs = tool_outputs and resp' = resp',
          OF Suc.prems(2) tc below run answer]
  have "responses_tool_loop max_calls submit call_function resp calls w =
          responses_tool_loop max_calls submit call_function resp' (calls + 1) w2"
    by (simp add: w2_def)
  with rest sub1 show ?case
    by (simp add: w2_def replicate_append_same)
qed

text \<open>
  Claim C4. Legacy shape. A round of \<^verbatim>\<open>__handle_function_call\<close> in which the response asks
  for a function and the plugin's result is not direct appends the function's turn,
  resubmits the history with \<open>auto\<close> when the counter is below the ceiling and with \<open>none\<close>
  otherwise, and goes on with the counter one higher. When the upstream model answers no
  request that disables function calling with a function call, the chain ends, with at
  most as many resubmissions as is left of the ceiling plus one, and as many plugin calls
  at most. Against an upstream that asks for a function whenever it may, the chain makes
  exactly that many plugin calls, with \<open>auto\<close> at every resubmission but the last, which
  carries \<open>none\<close>. Structured shape. At the ceiling the loop returns the response as it is;
  below it, a round in which no plugin raises calls every function tool of the response,
  submits the outputs and goes on with the counter one higher. The loop submits tool
  outputs at most \<open>max_calls - calls\<close> times, with at most \<open>K\<close> plugin calls for each when
  no response carries more than \<open>K\<close> tool calls, and exactly that many times against an
  upstream that always requires action.
\<close>

theorem tool_call_resolver_bounded:
  "(\<forall>function_name arguments function_response h response'.
      requested_call stream response = Inr (Call function_name arguments) \<longrightarrow>
      call_function function_name arguments = Inr function_response \<longrightarrow>
      \<not> is_direct_result function_response \<longrightarrow>
      conversations (helper_state w) cid = Some h \<longrightarrow>
      create (h @ [\<lparr> role = ''function'', name = Some function_name,
                     content = Str function_response \<rparr>])
        (if int ntimes < functions_max_consecutive_calls cfg then ''auto'' else ''none'')
        stream = Inr response' \<longrightarrow>
      handle_function_call cfg create call_function is_direct_result cid response stream
        ntimes plugins_used w =
      handle_function_call cfg create call_function is_direct_result cid response' stream
        (ntimes + 1)
        (if function_name \<in> set plugins_used then plugins_used
         else plugins_used @ [function_name])
        (w \<lparr> helper_state := (helper_state w)
                \<lparr> conversations := (conversations (helper_state w))
                    (cid \<mapsto> h @ [\<lparr> role = ''function'', name = Some function_name,
                                     content = Str function_response \<rparr>]) \<rparr>,
              invoked := invoked w @ [(function_name, arguments)],
              resubmitted := resubmitted w @
                [if int ntimes < functions_max_consecutive_calls cfg then ''auto''
                 else ''none''] \<rparr>))
   \<and> ((\<forall>h r. create h ''none'' stream = Inr r \<longrightarrow> \<not> requests_function stream r) \<longrightarrow>
        (\<exists>w' res k.
           handle_function_call cfg create call_function is_direct_result cid response stream
             ntimes plugins_used w = Some (w', res)
           \<and> k \<le> nat (functions_max_consecutive_calls cfg - int ntimes) + 1
           \<and> resubmitted w' =
               resubmitted w @
               map (\<lambda>n. if int n < functions_max_consecutive_calls cfg then ''auto''
                         else ''none'') [ntimes..<ntimes + k]
           \<and> length (invoked w') \<le>
               length (invoked w) + nat (functions_max_consecutive_calls cfg - int ntimes)
               + 1))
   \<and> ((\<forall>h mode. \<exists>r. create h mode stream = Inr r
                    \<and> (requests_function stream r \<longleftrightarrow> mode \<noteq> ''none'')) \<longrightarrow>
       (\<forall>fn args. \<exists>r. call_function fn args = Inr r \<and> \<not> is_direct_result r) \<longrightarrow>
       requests_function stream response \<longrightarrow>
       cid \<in> dom (conversations (helper_state w)) \<longrightarrow>
        (\<exists>w' res.
           handle_function_call cfg create call_function is_direct_result cid response stream
             ntimes plugins_used w = Some (w', res)
           \<and> resubmitted w' =
               resubmitted w @
               replicate (nat (functions_max_consecutive_calls cfg - int ntimes)) ''auto'' @
               [''none'']
           \<and> length (invoked w') =
               length (invoked w) + nat (functions_max_consecutive_calls cfg - int ntimes)
               + 1))
   \<and> (\<not> calls < max_calls \<longrightarrow>
        responses_tool_loop max_calls submit call_function resp calls w = (w, Inr resp))
   \<and> (\<forall>tool_calls w1 tool_outputs resp'.
        status resp = ''requires_action'' \<longrightarrow>
        submit_tool_outputs resp = Some tool_calls \<longrightarrow>
        calls < max_calls \<longrightarrow>
        run_tools call_function tool_calls [] w = (w1, Inr tool_outputs) \<longrightarrow>
        submit (response_id resp) tool_outputs = Inr resp' \<longrightarrow>
        w1 = w \<lparr> invoked := invoked w @ function_tools tool_calls \<rparr>
        \<and> responses_tool_loop max_calls submit call_function resp calls w =
            responses_tool_loop max_calls submit call_function resp' (calls + 1)
              (w1 \<lparr> resubmitted := resubmitted w1 @ [''tool_outputs''] \<rparr>))
   \<and> ((\<forall>tc. submit_tool_outputs resp = Some tc \<longrightarrow> length tc \<le> K) \<longrightarrow>
       (\<forall>i outs r tc. submit i outs = Inr r \<longrightarrow> submit_tool_outputs r = Some tc
          \<longrightarrow> length tc \<le> K) \<longrightarrow>
        length (resubmitted (fst (responses_tool_loop max_calls submit call_function resp
                                    calls w))) \<le>
          length (resubmitted w) + nat (max_calls - calls)
        \<and> length (invoked (fst (responses_tool_loop max_calls submit call_function resp
                                   calls w))) \<le>
            length (invoked w) + K * nat (max_calls - calls))
   \<and> ((\<forall>i outs. \<exists>r. submit i outs = Inr r \<and> status r = ''requires_action''
                    \<and> submit_tool_outputs r \<noteq> None) \<longrightarrow>
       (\<forall>fn args. \<exists>r. call_function fn args = Inr r) \<longrightarrow>
       status resp = ''requires_action'' \<longrightarrow> submit_tool_outputs resp \<noteq> None \<longrightarrow>
        resubmitted (fst (responses_tool_loop max_calls submit call_function resp calls w)) =
          resubmitted w @ replicate (nat (max_calls - calls)) ''tool_outputs'')"
proof (intro conjI allI impI)
  fix function_name arguments function_response h response'
  assume "requested_call stream response = Inr (Call function_name arguments)"
    and "call_function function_name arguments = Inr function_response"
    and "\<not> is_direct_result function_response"
    and "conversations (helper_state w) cid = Some h"
    and "create (h @ [\<lparr> role = ''function'', name = Some function_name,
                        content = Str function_response \<rparr>])
           (if int ntimes < functions_max_consecutive_calls cfg then ''auto'' else ''none'')
           stream = Inr response'"
  from handle_function_call_round
         [where cfg = cfg and is_direct_result = is_direct_result
            and plugins_used = plugins_used and create = create
            and call_function = call_function and stream = stream and response = response
            and function_name = function_name and arguments = arguments
            and function_response = function_response
            and w = w and cid = cid and h = h and ntimes = ntimes and response' = response'
            and mode = "if int ntimes < functions_max_consecutive_calls cfg then ''auto''
                        else ''none''",
          OF this(1) this(2) this(3) this(4) _ this(5)]
  show "handle_function_call cfg create call_function is_direct_result cid response stream
          ntimes plugins_used w =
        handle_function_call cfg create call_function is_direct_result cid response' stream
          (ntimes + 1)
          (if function_name \<in> set plugins_used then plugins_used
           else plugins_used @ [function_name])
          (w \<lparr> helper_state := (helper_state w)
                  \<lparr> conversations := (conversations (helper_state w))
                      (cid \<mapsto> h @ [\<lparr> role = ''function'', name = Some function_name,
                                       content = Str function_response \<rparr>]) \<rparr>,
                invoked := invoked w @ [(function_name, arguments)],
                resubmitted := resubmitted w @
                  [if int ntimes < functions_max_consecutive_calls cfg then ''auto''
                   else ''none''] \<rparr>)"
    by (simp add: function_call_mode_def)
next
  assume "\<forall>h r. create h ''none'' stream = Inr r \<longrightarrow> \<not> requests_function stream r"
  then have honours: "\<And>h r. create h ''none'' stream = Inr r \<Longrightarrow> \<not> requests_function stream r"
    by blast
  have mode: "function_call_mode cfg =
                (\<lambda>n. if int n < functions_max_consecutive_calls cfg then ''auto'' else ''none'')"
    by (rule ext) (simp add: function_call_mode_def)
  from handle_function_call_bounded
         [where create = create and stream = stream and cfg = cfg and ntimes = ntimes
            and call_function = call_function and is_direct_result = is_direct_result
            and cid = cid and response = response and plugins_used = plugins_used and w = w,
          OF honours refl]
  show "\<exists>w' res k.
          handle_function_call cfg create call_function is_direct_result cid response stream
            ntimes plugins_used w = Some (w', res)
          \<and> k \<le> nat (functions_max_consecutive_calls cfg - int ntimes) + 1
          \<and> resubmitted w' =
              resubmitted w @
              map (\<lambda>n. if int n < functions_max_consecutive_calls cfg then ''auto''
                        else ''none'') [ntimes..<ntimes + k]
          \<and> length (invoked w') \<le>
              length (invoked w) + nat (functions_max_consecutive_calls cfg - int ntimes)
              + 1"
    unfolding mode by simp
next
  assume "\<forall>h mode. \<exists>r. create h mode stream = Inr r
                    \<and> (requests_function stream r \<longleftrightarrow> mode \<noteq> ''none'')"
    and "\<forall>fn args. \<exists>r. call_function fn args = Inr r \<and> \<not> is_direct_result r"
    and asks: "requests_function stream response"
    and known: "cid \<in> dom (conversations (helper_state w))"
  then have eager: "\<And>h mode. \<exists>r. create h mode stream = Inr r
                      \<and> (requests_function stream r \<longleftrightarrow> mode \<noteq> ''none'')"
    and plugin: "\<And>fn args. \<exists>r. call_function fn args = Inr r \<and> \<not> is_direct_result r"
    by blast+
  from handle_function_call_exact
         [where create = create and stream = stream and cfg = cfg and ntimes = ntimes
            and call_function = call_function and is_direct_result = is_direct_result
            and cid = cid and response = response and plugins_used = plugins_used and w = w,
          OF eager plugin refl asks known]
  show "\<exists>w' res.
          handle_function_call cfg create call_function is_direct_result cid response stream
            ntimes plugins_used w = Some (w', res)
          \<and> resubmitted w' =
              resubmitted w @
              replicate (nat (functions_max_consecutive_calls cfg - int ntimes)) ''auto'' @
              [''none'']
          \<and> length (invoked w') =
              length (invoked w) + nat (functions_max_consecutive_calls cfg - int ntimes)
              + 1" .
next
  assume "\<not> calls < max_calls"
  then show "responses_tool_loop max_calls submit call_function resp calls w = (w, Inr resp)"
    by (rule responses_tool_loop_exit)
next
  fix tool_calls w1 tool_outputs resp'
  assume "status resp = ''requires_action''"
    and "submit_tool_outputs resp = Some tool_calls"
    and "calls < max_calls"
    and run: "run_tools call_function tool_calls [] w = (w1, Inr tool_outputs)"
    and "submit (response_id resp) tool_outputs = Inr resp'"
  from responses_tool_loop_round
         [where call_function = call_function and submit = submit and resp = resp
            and tool_calls = tool_calls and calls = calls and max_calls = max_calls
            and w = w and wt = w1 and tool_outputs = tool_outputs and resp' = resp',
          OF this]
  show "responses_tool_loop max_calls submit call_function resp calls w =
          responses_tool_loop max_calls submit call_function resp' (calls + 1)
            (w1 \<lparr> resubmitted := resubmitted w1 @ [''tool_outputs''] \<rparr>)" .
  from run show "w1 = w \<lparr> invoked := invoked w @ function_tools tool_calls \<rparr>"
    by (rule run_tools_trace)
next
  assume "\<forall>tc. submit_tool_outputs resp = Some tc \<longrightarrow> length tc \<le> K"
    and "\<forall>i outs r tc. submit i outs = Inr r \<longrightarrow> submit_tool_outputs r = Some tc
           \<longrightarrow> length tc \<le> K"
  then have first: "\<And>tc. submit_tool_outputs resp = Some tc \<Longrightarrow> length tc \<le> K"
    and few: "\<And>i outs r tc. submit i outs = Inr r \<Longrightarrow> submit_tool_outputs r = Some tc
                \<Longrightarrow> length tc \<le> K"
    by blast+
  from responses_tool_loop_bounds
         [where submit = submit and K = K and max_calls = max_calls and calls = calls
            and resp = resp and call_function = call_function and w = w,
          OF few refl first]
  show "length (resubmitted (fst (responses_tool_loop max_calls submit call_function resp
                                    calls w))) \<le>
          length (resubmitted w) + nat (max_calls - calls)"
    and "length (invoked (fst (responses_tool_loop max_calls submit call_function resp
                                 calls w))) \<le>
           length (invoked w) + K * nat (max_calls - calls)"
    by simp_all
next
  assume "\<forall>i outs. \<exists>r. submit i outs = Inr r \<and> status r = ''requires_action''
                    \<and> submit_tool_outputs r \<noteq> None"
    and "\<forall>fn args. \<exists>r. call_function fn args = Inr r"
    and requires: "status resp = ''requires_action''" "submit_tool_outputs resp \<noteq> None"
  then have eager: "\<And>i outs. \<exists>r. submit i outs = Inr r \<and> status r = ''requires_action''
                      \<and> submit_tool_outputs r \<noteq> None"
    and plugin: "\<And>fn args. \<exists>r. call_function fn args = Inr r"
    by blast+
  from responses_tool_loop_exact
         [where submit = submit and max_calls = max_calls and calls = calls
            and resp = resp and call_function = call_function and w = w,
          OF eager plugin refl requires]
  show "resubmitted (fst (responses_tool_loop max_calls submit call_function resp calls w)) =
          resubmitted w @ replicate (nat (max_calls - calls)) ''tool_outputs''" .
qed

theorem tool_call_resolver_bounded_witness:
  "(\<exists>w' res.
      handle_function_call (sample_config \<lparr> functions_max_consecutive_calls := 1 \<rparr>)
        eager_create weather_plugin (\<lambda>r. False) 7 (Completion asks_weather) False 0 []
        sample_world = Some (w', res)
      \<and> resubmitted w' = [''auto'', ''none'']
      \<and> length (invoked w') = 2)
   \<and> (\<exists>w' res.
         handle_function_call (sample_config \<lparr> functions_max_consecutive_calls := 1 \<rparr>)
           eager_create weather_plugin (\<lambda>r. False) 7 (Stream weather_stream) True 0 []
           sample_world = Some (w', res)
         \<and> resubmitted w' = [''auto'', ''none'']
         \<and> length (invoked w') = 2)
   \<and> resubmitted (fst (responses_tool_loop 3 eager_submit weather_plugin action_response 0
                         sample_world)) = replicate 3 ''tool_outputs''
   \<and> length (invoked (fst (responses_tool_loop 3 eager_submit weather_plugin
                              action_response 0 sample_world))) \<le> 3
   \<and> responses_tool_loop 3 eager_submit weather_plugin action_response 3 sample_world =
       (sample_world, Inr action_response)"
proof -
  define cfg where "cfg = sample_config \<lparr> functions_max_consecutive_calls := 1 \<rparr>"
  have ceiling: "functions_max_consecutive_calls cfg = 1" by (simp add: cfg_def)
  have start: "resubmitted sample_world = []" "invoked sample_world = []"
    by (simp_all add: sample_world_def)
  have known: "7 \<in> dom (conversations (helper_state sample_world))"
    by (simp add: sample_world_def)
  have eager: "\<forall>h mode. \<exists>r. eager_create h mode stream = Inr r
                 \<and> (requests_function stream r \<longleftrightarrow> mode \<noteq> ''none'')" for stream
    using eager_create_requests by blast
  have plugin: "\<forall>fn args. \<exists>r. weather_plugin fn args = Inr r \<and> \<not> False"
    by (simp add: weather_plugin_def)
  have asks: "requests_function False (Completion asks_weather)"
    "requests_function True (Stream weather_stream)"
    by (simp_all add: requests_function_def sample_requested_calls)
  have first: "\<forall>tc. submit_tool_outputs action_response = Some tc \<longrightarrow> length tc \<le> 1"
    by (simp add: action_response_def)
  have few: "\<forall>i outs r tc. eager_submit i outs = Inr r \<longrightarrow> submit_tool_outputs r = Some tc
               \<longrightarrow> length tc \<le> 1"
    by (auto simp: eager_submit_def action_response_def)
  have again: "\<forall>i outs. \<exists>r. eager_submit i outs = Inr r \<and> status r = ''requires_action''
                 \<and> submit_tool_outputs r \<noteq> None"
    by (simp add: eager_submit_def action_response_def)
  have answers: "\<forall>fn args. \<exists>r. weather_plugin fn args = Inr r"
    by (simp add: weather_plugin_def)
  have requires: "status action_response = ''requires_action''"
    "submit_tool_outputs action_response \<noteq> None"
    by (simp_all add: action_response_def)
  note plain = tool_call_resolver_bounded
         [where cfg = cfg and create = eager_create and call_function = weather_plugin
            and is_direct_result = "\<lambda>r. False" and cid = 7
            and response = "Completion asks_weather" and stream = False and ntimes = 0
            and plugins_used = "[]" and w = sample_world and max_calls = 3
            and submit = eager_submit and resp = action_response and calls = 0 and K = 1]
  note streamed = tool_call_resolver_bounded
         [where cfg = cfg and create = eager_create and call_function = weather_plugin
            and is_direct_result = "\<lambda>r. False" and cid = 7
            and response = "Stream weather_stream" and stream = True and ntimes = 0
            and plugins_used = "[]" and w = sample_world and max_calls = 3
            and submit = eager_submit and resp = action_response and calls = 3 and K = 1]
  from plain[THEN conjunct2, THEN conjunct2, THEN conjunct1, THEN mp, OF eager, THEN mp,
             OF plugin, THEN mp, OF asks(1), THEN mp, OF known]
  have one: "\<exists>w' res.
      handle_function_call cfg eager_create weather_plugin (\<lambda>r. False) 7
        (Completion asks_weather) False 0 [] sample_world = Some (w', res)
      \<and> resubmitted w' = [''auto'', ''none'']
      \<and> length (invoked w') = 2"
    by (simp add: ceiling start numeral_2_eq_2)
  from streamed[THEN conjunct2, THEN conjunct2, THEN conjunct1, THEN mp, OF eager, THEN mp,
                OF plugin, THEN mp, OF asks(2), THEN mp, OF known]
  have two: "\<exists>w' res.
      handle_function_call cfg eager_create weather_plugin (\<lambda>r. False) 7
        (Stream weather_stream) True 0 [] sample_world = Some (w', res)
      \<and> resubmitted w' = [''auto'', ''none'']
      \<and> length (invoked w') = 2"
    by (simp add: ceiling start numeral_2_eq_2)
  from plain[THEN conjunct2, THEN conjunct2, THEN conjunct2, THEN conjunct2, THEN conjunct2,
             THEN conjunct2, THEN mp, OF again, THEN mp, OF answers, THEN mp, OF requires(1),
             THEN mp, OF requires(2)]
  have three: "resubmitted (fst (responses_tool_loop 3 eager_submit weather_plugin
                                   action_response 0 sample_world)) =
               replicate 3 ''tool_outputs''"
    by (simp add: start)
  from plain[THEN conjunct2, THEN conjunct2, THEN conjunct2, THEN conjunct2, THEN conjunct2,
             THEN conjunct1, THEN mp, OF first, THEN mp, OF few]
  have four: "length (invoked (fst (responses_tool_loop 3 eager_submit weather_plugin
                                      action_response 0 sample_world))) \<le> 3"
    by (simp add: start)
  from streamed[THEN conjunct2, THEN conjunct2, THEN conjunct2, THEN conjunct1]
  have five: "responses_tool_loop 3 eager_submit weather_plugin action_response 3
                sample_world = (sample_world, Inr action_response)"
    by simp
  from one two three four five show ?thesis
    unfolding cfg_def by blast
qed

text \<open>
  The rounds of the examples one by one. With the ceiling at 1 the eager upstream gets two
  plugin calls (the second resubmission is the one that disables function calling); of
  the stream that is returned the chunk that was read is gone. The structured loop stops
  the upstream that always requires action after 3 submissions.
\<close>

lemma handle_function_call_ceiling_reached:
  "\<exists>w'. handle_function_call (sample_config \<lparr> functions_max_consecutive_calls := 1 \<rparr>)
          eager_create weather_plugin (\<lambda>r. False) 7 (Completion asks_weather) False 0 []
          sample_world =
          Some (w', Inr (ModelResponse (Completion plain_answer), [''weather'']))
        \<and> invoked w' = [(''weather'', ''{}''), (''weather'', ''{}'')]
        \<and> resubmitted w' = [''auto'', ''none'']"
  by (simp add: handle_function_call_step resolver_step_def sample_requested_calls
                sample_world_def eager_create_def weather_plugin_def
                add_function_call_to_history_def function_call_mode_def)

lemma handle_function_call_stream_ceiling_reached:
  "\<exists>w'. handle_function_call (sample_config \<lparr> functions_max_consecutive_calls := 1 \<rparr>)
          eager_create weather_plugin (\<lambda>r. False) 7 (Stream weather_stream) True 0 []
          sample_world =
          Some (w', Inr (ModelResponse (Stream (tl plain_stream)), [''weather'']))
        \<and> invoked w' = [(''weather'', ''{}''), (''weather'', ''{}'')]
        \<and> resubmitted w' = [''auto'', ''none'']"
  by (simp add: handle_function_call_step resolver_step_def sample_requested_calls
                sample_world_def eager_create_def weather_plugin_def
                add_function_call_to_history_def function_call_mode_def)

lemma responses_tool_loop_ceiling_reached:
  "responses_tool_loop 3 eager_submit weather_plugin action_response 0 sample_world =
     (sample_world \<lparr> invoked := [(''weather'', ''{}''), (''weather'', ''{}''),
                                 (''weather'', ''{}'')],
                     resubmitted := [''tool_outputs'', ''tool_outputs'', ''tool_outputs''] \<rparr>,
      Inr action_response)"
  by (simp add: responses_tool_loop.simps eager_submit_def weather_plugin_def
                action_response_def sample_world_def)

subsection \<open>Direct results\<close>

text \<open>
  Claim C5 on a plugin whose result is marked direct. In the legacy shape the chain
  ends with the plugin's result and nothing is resubmitted. In the structured shape the
  loop has no test for a direct result: the same result is submitted to the model as a
  tool output and the loop returns the model's next response.
\<close>

theorem direct_result_legacy_and_structured:
  "is_photo_sent photo_sent
   \<and> (\<exists>w'. handle_function_call sample_config eager_create photo_plugin is_photo_sent 7
              (Completion asks_weather) False 0 [] sample_world =
              Some (w', Inr (PluginResult photo_sent, [''weather'']))
            \<and> invoked w' = [(''weather'', ''{}'')]
            \<and> resubmitted w' = [])
   \<and> responses_tool_loop 10 content_submit photo_plugin action_response 0 sample_world =
       (sample_world \<lparr> invoked := [(''weather'', ''{}'')],
                       resubmitted := [''tool_outputs''] \<rparr>,
        Inr completed_response)"
  by (simp add: handle_function_call_step resolver_step_def sample_requested_calls
                sample_world_def photo_plugin_def is_photo_sent_def
                add_function_call_to_history_def responses_tool_loop.simps
                content_submit_def action_response_def completed_response_def)

end
